theory Spec2Isabelle
  imports Main "HOL-Library.Sublist"
begin

section \<open>Values and errors\<close>

text \<open>
  The Python values that reach the handler framework of \<^verbatim>\<open>passlib/utils/handlers.py\<close>.
  A \<^verbatim>\<open>str\<close> is a list of characters and a \<^verbatim>\<open>bytes\<close> object a list of
  byte values; both are written as \<open>string\<close>, a character standing for the code point (or
  byte) of the same number, so the text the model speaks about is the text whose code
  points lie below 256.  \<open>PObj\<close> is a value of any other type; it carries the name
  \<^verbatim>\<open>exc.type_name\<close> prints for it (for instance \<open>''float''\<close>).
\<close>

datatype pyval =
    PNone
  | PBool bool
  | PInt int
  | PStr string
  | PBytes string
  | PObj string

text \<open>
  Exceptions are values.  The constructors are the exception classes of
  \<^verbatim>\<open>passlib/exc.py\<close> and the builtin ones the framework raises; each carries its
  message, \<open>PasswordSizeError\<close> and \<open>PasswordTruncateError\<close> also their
  \<^verbatim>\<open>max_size\<close> attribute, \<open>UnknownBackendError\<close> the hasher's name and the backend.
\<close>

datatype error =
    TypeError string
  | ValueError string
  | UnicodeDecodeError
  | PasswordSizeError int string
  | PasswordTruncateError int string
  | UnknownBackendError string string
  | MissingBackendError string
  | PasslibSecurityError string
  | AssertionError string
  | RecursionError
  | NotImplementedError string
  | AttributeError string

text \<open>\<^verbatim>\<open>except ValueError\<close>: the classes that derive from \<^verbatim>\<open>ValueError\<close>.\<close>

fun is_ValueError :: "error \<Rightarrow> bool" where
  "is_ValueError (ValueError _) = True"
| "is_ValueError UnicodeDecodeError = True"
| "is_ValueError (PasswordSizeError _ _) = True"
| "is_ValueError (PasswordTruncateError _ _) = True"
| "is_ValueError (UnknownBackendError _ _) = True"
| "is_ValueError _ = False"

fun is_MissingBackendError :: "error \<Rightarrow> bool" where
  "is_MissingBackendError (MissingBackendError _) = True"
| "is_MissingBackendError _ = False"

fun is_PasslibSecurityError :: "error \<Rightarrow> bool" where
  "is_PasslibSecurityError (PasslibSecurityError _) = True"
| "is_PasslibSecurityError _ = False"

subsection \<open>Error constructors of \<^verbatim>\<open>exc.py\<close>\<close>

fun type_name :: "pyval \<Rightarrow> string" where
  "type_name PNone = ''None''"
| "type_name (PBool _) = ''bool''"
| "type_name (PInt _) = ''int''"
| "type_name (PStr _) = ''str''"
| "type_name (PBytes _) = ''bytes''"
| "type_name (PObj n) = n"

definition ExpectedTypeError :: "pyval \<Rightarrow> string \<Rightarrow> string \<Rightarrow> error" where
  "ExpectedTypeError val expected param =
     TypeError (param @ '' must be '' @ expected @ '', not '' @ type_name val)"

definition ExpectedStringError :: "pyval \<Rightarrow> string \<Rightarrow> error" where
  "ExpectedStringError val param = ExpectedTypeError val ''str or bytes'' param"

text \<open>A handler argument of the error constructors is the handler's name, or \<open>None\<close>.\<close>

definition get_name :: "string option \<Rightarrow> string" where
  "get_name handler = (case handler of Some n \<Rightarrow> n | None \<Rightarrow> ''<unnamed>'')"

definition MissingDigestError :: "string option \<Rightarrow> error" where
  "MissingDigestError handler =
     ValueError (''expected '' @ get_name handler @ '' hash, got '' @ get_name handler
                 @ '' config string instead'')"

definition InvalidHashError :: "string option \<Rightarrow> error" where
  "InvalidHashError handler = ValueError (''not a valid '' @ get_name handler @ '' hash'')"

definition MalformedHashError :: "string option \<Rightarrow> string option \<Rightarrow> error" where
  "MalformedHashError handler reason =
     (let text = ''malformed '' @ get_name handler @ '' hash''
      in case reason of
           None \<Rightarrow> ValueError text
         | Some r \<Rightarrow> if r = [] then ValueError text
                     else ValueError (text @ '' ('' @ r @ '')''))"

definition ZeroPaddedRoundsError :: "string option \<Rightarrow> error" where
  "ZeroPaddedRoundsError handler = MalformedHashError handler (Some ''zero-padded rounds'')"

definition password_size_error :: "int \<Rightarrow> error" where
  "password_size_error max_size =
     PasswordSizeError max_size ''password exceeds maximum allowed size''"

section \<open>Secret validation and text conversion\<close>

text \<open>
  \<^verbatim>\<open>validate_secret\<close>.  \<^verbatim>\<open>MAX_PASSWORD_SIZE\<close> is a configurable constant of
  \<^verbatim>\<open>passlib.utils\<close>; it is the parameter \<open>MAX_PASSWORD_SIZE\<close>.  The types
  \<^verbatim>\<open>unicode_or_bytes\<close> of \<^verbatim>\<open>passlib.utils.compat\<close> are \<^verbatim>\<open>str\<close> and
  \<^verbatim>\<open>bytes\<close>.
\<close>

definition isinstance_unicode_or_bytes :: "pyval \<Rightarrow> bool" where
  "isinstance_unicode_or_bytes v = (case v of PStr _ \<Rightarrow> True | PBytes _ \<Rightarrow> True | _ \<Rightarrow> False)"

text \<open>\<^verbatim>\<open>len\<close> of a text or of a byte string (it is asked of no other value).\<close>

definition py_len :: "pyval \<Rightarrow> nat" where
  "py_len v = (case v of PStr s \<Rightarrow> length s | PBytes b \<Rightarrow> length b | _ \<Rightarrow> 0)"

definition validate_secret :: "int \<Rightarrow> pyval \<Rightarrow> error + unit" where
  "validate_secret MAX_PASSWORD_SIZE secret =
     (if \<not> isinstance_unicode_or_bytes secret then Inl (ExpectedStringError secret ''secret'')
      else if int (py_len secret) > MAX_PASSWORD_SIZE
           then Inl (password_size_error MAX_PASSWORD_SIZE)
      else Inr ())"

text \<open>
  \<^verbatim>\<open>to_unicode_for_identify\<close>.  The UTF-8 decoder of the Python runtime is the
  parameter \<open>utf8\<close> (\<open>None\<close> when it raises \<^verbatim>\<open>UnicodeDecodeError\<close>); decoding as
  Latin-1 maps every byte to the code point of the same number and never fails.
\<close>

definition to_unicode_for_identify :: "(string \<Rightarrow> string option) \<Rightarrow> pyval \<Rightarrow> error + string" where
  "to_unicode_for_identify utf8 hash =
     (case hash of
        PStr s \<Rightarrow> Inr s
      | PBytes b \<Rightarrow> (case utf8 b of Some s \<Rightarrow> Inr s | None \<Rightarrow> Inr b)
      | _ \<Rightarrow> Inl (ExpectedStringError hash ''hash''))"

definition decode_ascii :: "string \<Rightarrow> string option" where
  "decode_ascii b = (if list_all (\<lambda>c. (of_char c :: nat) < 128) b then Some b else None)"

text \<open>
  Modelled from the spec: \<^verbatim>\<open>passlib.utils.to_unicode\<close> is imported by
  \<^verbatim>\<open>handlers.py\<close> from a module outside the files verified here.  The
  codec takes ``the hash to parse (bytes or str)'': text is returned as it is, bytes are
  decoded as ASCII, and any other value is the input-shape error (wrong argument type),
  as in the sibling \<^verbatim>\<open>to_unicode_for_identify\<close>.
\<close>

definition to_unicode :: "pyval \<Rightarrow> string \<Rightarrow> error + string" where
  "to_unicode source param =
     (case source of
        PStr s \<Rightarrow> Inr s
      | PBytes b \<Rightarrow> (case decode_ascii b of Some s \<Rightarrow> Inr s | None \<Rightarrow> Inl UnicodeDecodeError)
      | _ \<Rightarrow> Inl (ExpectedStringError source param))"

text \<open>
  Modelled from the spec: \<^verbatim>\<open>passlib.utils.consteq\<close> lies in a module outside
  the files verified here.  Verify does a ``constant-time compare against parsed checksum'' and
  returns a boolean: two texts or two byte strings are compared for equality, anything
  else is an input-shape error.
\<close>

definition consteq :: "pyval \<Rightarrow> pyval \<Rightarrow> error + bool" where
  "consteq left right =
     (case (left, right) of
        (PStr a, PStr b) \<Rightarrow> Inr (a = b)
      | (PBytes a, PBytes b) \<Rightarrow> Inr (a = b)
      | _ \<Rightarrow> Inl (TypeError ''inputs must be both unicode or both bytes''))"

section \<open>Builtins of the language used by the codec\<close>

text \<open>
  \<^verbatim>\<open>str.split(sep)\<close>: the fields between the occurrences of \<open>sep\<close>, found from
  the left; an empty separator raises \<^verbatim>\<open>ValueError\<close>.
\<close>

function split_fields :: "string \<Rightarrow> string \<Rightarrow> string list" where
  "split_fields sep [] = [[]]"
| "split_fields sep (c # cs) =
     (if sep \<noteq> [] \<and> prefix sep (c # cs)
      then [] # split_fields sep (drop (length sep) (c # cs))
      else (case split_fields sep cs of
              f # fs \<Rightarrow> (c # f) # fs
            | [] \<Rightarrow> [[c]]))"
  by pat_completeness auto
termination
  by (relation "measure (\<lambda>(sep, s). length s)") (auto simp: neq_Nil_conv)

definition py_split :: "string \<Rightarrow> string \<Rightarrow> error + string list" where
  "py_split sep s = (if sep = [] then Inl (ValueError ''empty separator'')
                     else Inr (split_fields sep s))"

text \<open>
  \<^verbatim>\<open>str(n)\<close> and \<^verbatim>\<open>"%x" % n\<close> of an integer: the digits of \<open>n\<close> in base 10 and
  in base 16 (lower case), after a minus sign when \<open>n\<close> is negative.
\<close>

definition digit_char :: "nat \<Rightarrow> char" where
  "digit_char d = (if d < 36 then ''0123456789abcdefghijklmnopqrstuvwxyz'' ! d else CHR ''?'')"

function nat_digits :: "nat \<Rightarrow> nat \<Rightarrow> string" where
  "nat_digits b n =
     (if b < 2 \<or> n < b then [digit_char n]
      else nat_digits b (n div b) @ [digit_char (n mod b)])"
  by pat_completeness auto
termination
  by (relation "measure (\<lambda>(b, n). n)") auto

declare nat_digits.simps [simp del]

definition int_digits :: "nat \<Rightarrow> int \<Rightarrow> string" where
  "int_digits b n = (if n < 0 then CHR ''-'' # nat_digits b (nat (- n))
                     else nat_digits b (nat n))"

definition py_str :: "int \<Rightarrow> string" where
  "py_str n = int_digits 10 n"

definition py_hex :: "int \<Rightarrow> string" where
  "py_hex n = int_digits 16 n"

text \<open>
  \<^verbatim>\<open>int(text, base)\<close>.  White space around the number is dropped, then come an
  optional sign, an optional base prefix (\<^verbatim>\<open>0x\<close>, \<^verbatim>\<open>0o\<close>, \<^verbatim>\<open>0b\<close>, when
  the base allows it) and the digits, which single underscores may separate.  Base 0
  reads the base from the prefix.  Anything else raises \<^verbatim>\<open>ValueError\<close>; its
  message is shortened to the fixed part.

  The white space that \<^verbatim>\<open>int\<close> drops, among the characters below 256: tab, line
  feed, vertical tab, form feed, carriage return and space, and the two Unicode spaces
  U+0085 and U+00A0.  The separators U+001C to U+001F are not dropped: \<^verbatim>\<open>int\<close>
  raises \<^verbatim>\<open>ValueError\<close> on a text that has one of them.

  The interpreter can be configured to refuse the conversion between text and integers
  of more than a given number of digits, in a base that is not a power of two
  (\<^verbatim>\<open>sys.set_int_max_str_digits\<close>; the number is 0, for no limit, or at least 640).
  That limit is a setting of the interpreter, not of the language, and is not modelled:
  \<open>py_str\<close> and \<open>py_int\<close> are the conversions with the limit off, and agree with
  every setting on texts of at most 640 characters.
\<close>

definition py_isspace :: "char \<Rightarrow> bool" where
  "py_isspace c = ((of_char c :: nat) \<in> set [9, 10, 11, 12, 13, 32, 133, 160])"

definition digit_value :: "char \<Rightarrow> nat" where
  "digit_value c =
     (let n = (of_char c :: nat)
      in if 48 \<le> n \<and> n \<le> 57 then n - 48
         else if 97 \<le> n \<and> n \<le> 122 then n - 87
         else if 65 \<le> n \<and> n \<le> 90 then n - 55
         else 37)"

text \<open>
  The digits are read from the left: \<open>acc\<close> is the value so far, \<open>us\<close> says that the last
  character was an underscore, \<open>seen\<close> that a character was consumed.  The result is the
  value, \<open>seen\<close> and the text that follows the number; \<open>None\<close> is a misplaced underscore.
\<close>

fun scan_digits :: "nat \<Rightarrow> int \<Rightarrow> bool \<Rightarrow> bool \<Rightarrow> string \<Rightarrow> (int \<times> bool \<times> string) option" where
  "scan_digits b acc us seen [] = (if us then None else Some (acc, seen, []))"
| "scan_digits b acc us seen (c # cs) =
     (if c = CHR ''_'' then (if us then None else scan_digits b acc True True cs)
      else if digit_value c < b
           then scan_digits b (acc * int b + int (digit_value c)) False True cs
      else if us then None
      else Some (acc, seen, c # cs))"

definition invalid_literal :: "error" where
  "invalid_literal = ValueError ''invalid literal for int()''"

definition has_base_prefix :: "int \<Rightarrow> string \<Rightarrow> bool" where
  "has_base_prefix b s =
     (case s of
        z # x # _ \<Rightarrow>
          z = CHR ''0'' \<and>
          ((b = 16 \<and> (x = CHR ''x'' \<or> x = CHR ''X'')) \<or>
           (b = 8 \<and> (x = CHR ''o'' \<or> x = CHR ''O'')) \<or>
           (b = 2 \<and> (x = CHR ''b'' \<or> x = CHR ''B'')))
      | _ \<Rightarrow> False)"

text \<open>The sign, and the text after it.\<close>

definition int_sign :: "string \<Rightarrow> bool \<times> string" where
  "int_sign s =
     (case s of
        c # r \<Rightarrow> if c = CHR ''+'' then (False, r)
                 else if c = CHR ''-'' then (True, r)
                 else (False, s)
      | [] \<Rightarrow> (False, s))"

text \<open>
  The base the digits are read in, and whether only zero is acceptable: with base 0 a
  number that starts with \<^verbatim>\<open>0\<close> and has no base prefix must be zero.
\<close>

definition int_base :: "int \<Rightarrow> string \<Rightarrow> int \<times> bool" where
  "int_base base s =
     (if base \<noteq> 0 then (base, False)
      else if has_base_prefix 16 s then (16, False)
      else if has_base_prefix 8 s then (8, False)
      else if has_base_prefix 2 s then (2, False)
      else (10, (case s of c # _ \<Rightarrow> c = CHR ''0'' | [] \<Rightarrow> False)))"

text \<open>The text after the base prefix; one underscore may follow the prefix.\<close>

definition int_skip_prefix :: "int \<Rightarrow> string \<Rightarrow> string" where
  "int_skip_prefix b s =
     (if has_base_prefix b s
      then (case drop 2 s of
              c # r \<Rightarrow> if c = CHR ''_'' then r else c # r
            | [] \<Rightarrow> [])
      else s)"

text \<open>The digits, up to the end of the text or to trailing white space.\<close>

definition int_literal :: "nat \<Rightarrow> bool \<Rightarrow> string \<Rightarrow> error + int" where
  "int_literal b error_if_nonzero s =
     (case s of
        [] \<Rightarrow> Inl invalid_literal
      | c # _ \<Rightarrow>
          if c = CHR ''_'' then Inl invalid_literal
          else (case scan_digits b 0 False False s of
                  None \<Rightarrow> Inl invalid_literal
                | Some (v, seen, rest) \<Rightarrow>
                    if (error_if_nonzero \<and> v \<noteq> 0) \<or> \<not> seen
                       \<or> dropWhile py_isspace rest \<noteq> []
                    then Inl invalid_literal
                    else Inr v))"

definition py_int :: "string \<Rightarrow> int \<Rightarrow> error + int" where
  "py_int text base =
     (if (base \<noteq> 0 \<and> base < 2) \<or> base > 36
      then Inl (ValueError ''int() base must be >= 2 and <= 36, or 0'')
      else (case int_sign (dropWhile py_isspace text) of
              (neg, s2) \<Rightarrow>
                (case int_base base s2 of
                   (b, error_if_nonzero) \<Rightarrow>
                     (case int_literal (nat b) error_if_nonzero (int_skip_prefix b s2) of
                        Inl e \<Rightarrow> Inl e
                      | Inr v \<Rightarrow> Inr (if neg then - v else v)))))"

text \<open>
  Two notions for reasoning about the digits: a character that is a digit below the base,
  and the value of a string of digits read from the left, starting from \<open>acc\<close>.
\<close>

definition is_digit_below :: "nat \<Rightarrow> char \<Rightarrow> bool" where
  "is_digit_below b c = (\<exists>d<b. c = digit_char d)"

definition digits_value :: "nat \<Rightarrow> int \<Rightarrow> string \<Rightarrow> int" where
  "digits_value b acc ds = foldl (\<lambda>a c. a * int b + int (digit_value c)) acc ds"

section \<open>The modular crypt format codec\<close>

text \<open>The default separator \<^verbatim>\<open>_UDOLLAR\<close> and the digit \<^verbatim>\<open>_UZERO\<close>.\<close>

definition UDOLLAR :: string where
  "UDOLLAR = ''$''"

definition UZERO :: string where
  "UZERO = ''0''"

text \<open>\<^verbatim>\<open>chk or None\<close>: an empty checksum field counts as no checksum.\<close>

fun or_None :: "string option \<Rightarrow> string option" where
  "or_None None = None"
| "or_None (Some s) = (if s = [] then None else Some s)"

text \<open>
  \<^verbatim>\<open>parse_mc2(hash, prefix, sep, handler)\<close>.  The handler is only used to name the
  hash in error messages.
\<close>

definition parse_mc2 :: "pyval \<Rightarrow> string \<Rightarrow> string \<Rightarrow> string option
                         \<Rightarrow> error + (string \<times> string option)" where
  "parse_mc2 hash_arg pfx sep handler =
     (case to_unicode hash_arg ''hash'' of
        Inl e \<Rightarrow> Inl e
      | Inr h \<Rightarrow>
         if \<not> prefix pfx h then Inl (InvalidHashError handler)
         else (case py_split sep (drop (length pfx) h) of
                 Inl e \<Rightarrow> Inl e
               | Inr parts \<Rightarrow>
                  (case parts of
                     [salt, chk] \<Rightarrow> Inr (salt, or_None (Some chk))
                   | [salt] \<Rightarrow> Inr (salt, None)
                   | _ \<Rightarrow> Inl (MalformedHashError handler None))))"

text \<open>
  \<^verbatim>\<open>parse_mc3(hash, prefix, sep, rounds_base, default_rounds, handler)\<close>.  Its last
  part, which validates and parses the rounds field and returns the result, comes first.
\<close>

definition parse_mc3_rounds :: "string \<Rightarrow> string \<Rightarrow> string option \<Rightarrow> int \<Rightarrow> int option
                                \<Rightarrow> string option \<Rightarrow> error + (int \<times> string \<times> string option)" where
  "parse_mc3_rounds rounds salt chk rounds_base default_rounds handler =
     (if prefix UZERO rounds \<and> rounds \<noteq> UZERO then Inl (ZeroPaddedRoundsError handler)
      else if rounds \<noteq> []
      then (case py_int rounds rounds_base of
              Inl e \<Rightarrow> Inl e
            | Inr r \<Rightarrow> Inr (r, salt, or_None chk))
      else (case default_rounds of
              None \<Rightarrow> Inl (MalformedHashError handler (Some ''empty rounds field''))
            | Some d \<Rightarrow> Inr (d, salt, or_None chk)))"

definition parse_mc3 :: "pyval \<Rightarrow> string \<Rightarrow> string \<Rightarrow> int \<Rightarrow> int option \<Rightarrow> string option
                         \<Rightarrow> error + (int \<times> string \<times> string option)" where
  "parse_mc3 hash_arg pfx sep rounds_base default_rounds handler =
     (case to_unicode hash_arg ''hash'' of
        Inl e \<Rightarrow> Inl e
      | Inr h \<Rightarrow>
         if \<not> prefix pfx h then Inl (InvalidHashError handler)
         else (case py_split sep (drop (length pfx) h) of
                 Inl e \<Rightarrow> Inl e
               | Inr parts \<Rightarrow>
                  (case parts of
                     [rounds, salt, chk] \<Rightarrow>
                       parse_mc3_rounds rounds salt (Some chk) rounds_base default_rounds handler
                   | [rounds, salt] \<Rightarrow>
                       parse_mc3_rounds rounds salt None rounds_base default_rounds handler
                   | _ \<Rightarrow> Inl (MalformedHashError handler None))))"

text \<open>\<^verbatim>\<open>render_mc2(ident, salt, checksum, sep)\<close>.\<close>

definition render_mc2 :: "string \<Rightarrow> string \<Rightarrow> string option \<Rightarrow> string \<Rightarrow> string" where
  "render_mc2 idt salt chk sep =
     (case or_None chk of
        Some c \<Rightarrow> concat [idt, salt, sep, c]
      | None \<Rightarrow> concat [idt, salt])"

text \<open>
  \<^verbatim>\<open>render_mc3(ident, rounds, salt, checksum, sep, rounds_base)\<close>.  A base other
  than 16 and 10 fails the assertion.  \<^verbatim>\<open>join_unicode\<close> of \<^verbatim>\<open>passlib.utils\<close>
  joins the parts, as \<^verbatim>\<open>"".join\<close> does in \<^verbatim>\<open>render_mc2\<close>.
\<close>

definition render_mc3 :: "string \<Rightarrow> int option \<Rightarrow> string \<Rightarrow> string option \<Rightarrow> string \<Rightarrow> int
                          \<Rightarrow> error + string" where
  "render_mc3 idt rounds salt chk sep rounds_base =
     (case (case rounds of
              None \<Rightarrow> Inr []
            | Some r \<Rightarrow> if rounds_base = 16 then Inr (py_hex r)
                        else if rounds_base = 10 then Inr (py_str r)
                        else Inl (AssertionError [])) of
        Inl e \<Rightarrow> Inl e
      | Inr rs \<Rightarrow>
         (case or_None chk of
            Some c \<Rightarrow> Inr (concat [idt, rs, sep, salt, sep, c])
          | None \<Rightarrow> Inr (concat [idt, rs, sep, salt])))"

section \<open>GenericHandler\<close>

text \<open>Warnings issued through \<^verbatim>\<open>warnings.warn\<close>, by category.\<close>

datatype warning =
    PasslibHashWarning string
  | PasslibConfigWarning string
  | DeprecationWarning string

text \<open>
  An instance of a handler class: the attributes \<^verbatim>\<open>checksum\<close> and
  \<^verbatim>\<open>use_defaults\<close> that \<^verbatim>\<open>GenericHandler.__init__\<close> sets, and \<open>settings\<close>, the
  attributes the mixins and the subclass add (salt, rounds, ident, user, ...).
\<close>

record 'a hasher =
  checksum :: "pyval option"
  use_defaults :: bool
  settings :: 'a

type_synonym kwds = "(string \<times> pyval) list"

text \<open>
  A handler class derived from \<^verbatim>\<open>GenericHandler\<close>: its class attributes and the
  methods a subclass must provide.  \<open>construct\<close> is what the constructors of the mixins
  and of the subclass do with the keywords of \<^verbatim>\<open>cls(use_defaults=..., **kwds)\<close>; its
  last argument is the state of the random generator, from which a salt or a varied
  rounds value is drawn when defaults are asked for.  \<open>hash_regex\<close> is
  \<^verbatim>\<open>_hash_regex\<close>, as the predicate \<^verbatim>\<open>pat.match(hash) is not None\<close>.
\<close>

record 'a handler_class =
  name :: string
  ident :: "string option"
  hash_regex :: "(string \<Rightarrow> bool) option"
  checksum_size :: "nat option"
  checksum_chars :: "string option"
  checksum_is_bytes :: bool
  construct :: "bool \<Rightarrow> kwds \<Rightarrow> nat \<Rightarrow> error + 'a"
  from_string :: "pyval \<Rightarrow> kwds \<Rightarrow> error + 'a hasher"
  to_string :: "'a hasher \<Rightarrow> error + string"
  calc_checksum :: "'a hasher \<Rightarrow> pyval \<Rightarrow> error + pyval"

definition ChecksumSizeError :: "'a handler_class \<Rightarrow> bool \<Rightarrow> error" where
  "ChecksumSizeError handler raw =
     MalformedHashError (Some (name handler))
       (Some (''checksum must be exactly ''
              @ py_str (case checksum_size handler of Some n \<Rightarrow> int n | None \<Rightarrow> 0)
              @ '' '' @ (if raw then ''bytes'' else ''chars'')))"

text \<open>\<^verbatim>\<open>GenericHandler._norm_checksum(checksum, relaxed)\<close>, with the warnings it issues.\<close>

definition norm_checksum :: "'a handler_class \<Rightarrow> pyval \<Rightarrow> bool \<Rightarrow> (error + pyval) \<times> warning list" where
  "norm_checksum cls chk relaxed =
     (let raw = checksum_is_bytes cls;
          conv =
            (if raw
             then (case chk of
                     PBytes _ \<Rightarrow> (Inr chk, [])
                   | _ \<Rightarrow> (Inl (ExpectedTypeError chk ''bytes'' ''checksum''), []))
             else (case chk of
                     PStr _ \<Rightarrow> (Inr chk, [])
                   | PBytes b \<Rightarrow>
                       if relaxed
                       then ((case decode_ascii b of
                                Some t \<Rightarrow> Inr (PStr t)
                              | None \<Rightarrow> Inl UnicodeDecodeError),
                             [PasslibHashWarning ''checksum should be unicode, not bytes''])
                       else (Inl (ExpectedTypeError chk ''str'' ''checksum''), [])
                   | _ \<Rightarrow> (Inl (ExpectedTypeError chk ''str'' ''checksum''), [])))
      in case fst conv of
           Inl e \<Rightarrow> (Inl e, snd conv)
         | Inr c \<Rightarrow>
             if (case checksum_size cls of
                   Some cc \<Rightarrow> cc \<noteq> 0 \<and> py_len c \<noteq> cc
                 | None \<Rightarrow> False)
             then (Inl (ChecksumSizeError cls raw), snd conv)
             else if \<not> raw \<and>
                     (case checksum_chars cls of
                        Some cs \<Rightarrow>
                          cs \<noteq> [] \<and>
                          \<not> list_all (\<lambda>ch. ch \<in> set cs) (case c of PStr t \<Rightarrow> t | _ \<Rightarrow> [])
                      | None \<Rightarrow> False)
             then (Inl (ValueError (''invalid characters in '' @ name cls @ '' checksum'')),
                   snd conv)
             else (Inr c, snd conv))"

text \<open>
  \<^verbatim>\<open>GenericHandler.__init__(checksum, use_defaults, **kwds)\<close>: the keywords go to
  the other constructors, and a checksum that is given is normalised (strictly).  The
  keywords are looked at first, as in a class without mixins, where a keyword left over
  reaches \<^verbatim>\<open>object.__init__\<close> before the checksum is normalised; a mixin that
  validates its setting after calling \<^verbatim>\<open>super().__init__\<close> reports its failure after
  that of the checksum.  Which of two failures is reported plays no part below.
\<close>

definition init :: "'a handler_class \<Rightarrow> pyval option \<Rightarrow> bool \<Rightarrow> kwds \<Rightarrow> nat \<Rightarrow> error + 'a hasher" where
  "init cls chk use_dflt kwds rng =
     (case construct cls use_dflt kwds rng of
        Inl e \<Rightarrow> Inl e
      | Inr st \<Rightarrow>
         (case chk of
            None \<Rightarrow> Inr \<lparr>checksum = None, use_defaults = use_dflt, settings = st\<rparr>
          | Some c \<Rightarrow>
             (case fst (norm_checksum cls c False) of
                Inl e \<Rightarrow> Inl e
              | Inr c' \<Rightarrow> Inr \<lparr>checksum = Some c', use_defaults = use_dflt, settings = st\<rparr>)))"

text \<open>
  \<^verbatim>\<open>GenericHandler.hash\<close>, called with context keywords only (passing settings to
  \<^verbatim>\<open>hash\<close> is deprecated, and goes through \<^verbatim>\<open>using\<close> to this same code).
\<close>

definition hash :: "'a handler_class \<Rightarrow> int \<Rightarrow> nat \<Rightarrow> pyval \<Rightarrow> kwds \<Rightarrow> error + string" where
  "hash cls MAX_PASSWORD_SIZE rng secret kwds =
     (case validate_secret MAX_PASSWORD_SIZE secret of
        Inl e \<Rightarrow> Inl e
      | Inr _ \<Rightarrow>
         (case init cls None True kwds rng of
            Inl e \<Rightarrow> Inl e
          | Inr self \<Rightarrow>
             (case calc_checksum cls self secret of
                Inl e \<Rightarrow> Inl e
              | Inr chk \<Rightarrow> to_string cls (self\<lparr>checksum := Some chk\<rparr>))))"

definition verify :: "'a handler_class \<Rightarrow> int \<Rightarrow> pyval \<Rightarrow> pyval \<Rightarrow> kwds \<Rightarrow> error + bool" where
  "verify cls MAX_PASSWORD_SIZE secret hash_arg context =
     (case validate_secret MAX_PASSWORD_SIZE secret of
        Inl e \<Rightarrow> Inl e
      | Inr _ \<Rightarrow>
         (case from_string cls hash_arg context of
            Inl e \<Rightarrow> Inl e
          | Inr self \<Rightarrow>
             (case checksum self of
                None \<Rightarrow> Inl (MissingDigestError (Some (name cls)))
              | Some chk \<Rightarrow>
                 (case calc_checksum cls self secret of
                    Inl e \<Rightarrow> Inl e
                  | Inr c \<Rightarrow> consteq c chk))))"

definition identify :: "(string \<Rightarrow> string option) \<Rightarrow> 'a handler_class \<Rightarrow> pyval \<Rightarrow> error + bool" where
  "identify utf8 cls hash_arg =
     (case to_unicode_for_identify utf8 hash_arg of
        Inl e \<Rightarrow> Inl e
      | Inr h \<Rightarrow>
         if h = [] then Inr False
         else (case ident cls of
                 Some i \<Rightarrow> Inr (prefix i h)
               | None \<Rightarrow>
                  (case hash_regex cls of
                     Some pat \<Rightarrow> Inr (pat h)
                   | None \<Rightarrow>
                      (case from_string cls (PStr h) [] of
                         Inr _ \<Rightarrow> Inr True
                       | Inl e \<Rightarrow> if is_ValueError e then Inr False else Inl e))))"

section \<open>StaticHandler\<close>

text \<open>
  \<^verbatim>\<open>StaticHandler.from_string\<close> and \<^verbatim>\<open>to_string\<close>: the whole hash, after the
  constant \<^verbatim>\<open>_hash_prefix\<close>, is the checksum.  \<open>norm_hash\<close> is the class's
  \<^verbatim>\<open>_norm_hash\<close>.  The constructor is called with \<^verbatim>\<open>use_defaults\<close> off and
  draws nothing from the random generator.
\<close>

definition static_from_string :: "'a handler_class \<Rightarrow> string \<Rightarrow> (string \<Rightarrow> string) \<Rightarrow> pyval \<Rightarrow> kwds
                                  \<Rightarrow> error + 'a hasher" where
  "static_from_string cls hash_prefix norm_hash hash_arg context =
     (case to_unicode hash_arg ''hash'' of
        Inl e \<Rightarrow> Inl e
      | Inr h0 \<Rightarrow>
         (let h = norm_hash h0
          in if hash_prefix \<noteq> []
             then (if prefix hash_prefix h
                   then init cls (Some (PStr (drop (length hash_prefix) h))) False context 0
                   else Inl (InvalidHashError (Some (name cls))))
             else init cls (Some (PStr h)) False context 0))"

text \<open>
  \<^verbatim>\<open>self._hash_prefix + self.checksum\<close>: the concatenation is defined for a text
  checksum.
\<close>

definition static_to_string :: "string \<Rightarrow> 'a hasher \<Rightarrow> error + string" where
  "static_to_string hash_prefix self =
     (case checksum self of
        Some (PStr c) \<Rightarrow> Inr (hash_prefix @ c)
      | _ \<Rightarrow> Inl (TypeError ''can only concatenate str to str''))"

text \<open>
  A class derived from \<^verbatim>\<open>StaticHandler\<close>: the attributes a subclass sets, with the
  two methods above.  \<^verbatim>\<open>ident\<close> and \<^verbatim>\<open>_hash_regex\<close> keep their defaults.
\<close>

definition StaticHandler :: "string \<Rightarrow> nat option \<Rightarrow> string option \<Rightarrow> string \<Rightarrow> (string \<Rightarrow> string)
                             \<Rightarrow> (bool \<Rightarrow> kwds \<Rightarrow> nat \<Rightarrow> error + 'a)
                             \<Rightarrow> ('a hasher \<Rightarrow> pyval \<Rightarrow> error + pyval) \<Rightarrow> 'a handler_class" where
  "StaticHandler nm csize cchars hash_prefix norm_hash ctor calc =
     (let base = \<lparr>name = nm, ident = None, hash_regex = None,
                  checksum_size = csize, checksum_chars = cchars, checksum_is_bytes = False,
                  construct = ctor,
                  from_string = (\<lambda>_ _. Inl (NotImplementedError nm)),
                  to_string = (\<lambda>_. Inl (NotImplementedError nm)),
                  calc_checksum = calc\<rparr>
      in base\<lparr>from_string := static_from_string base hash_prefix norm_hash,
              to_string := static_to_string hash_prefix\<rparr>)"

subsection \<open>\<^verbatim>\<open>nthash\<close> of \<^verbatim>\<open>handlers/windows.py\<close>\<close>

text \<open>\<^verbatim>\<open>str.lower\<close> on the characters below 256, and \<^verbatim>\<open>binascii.hexlify\<close>.\<close>

definition lower_char :: "char \<Rightarrow> char" where
  "lower_char c =
     (let n = (of_char c :: nat)
      in if (65 \<le> n \<and> n \<le> 90) \<or> (192 \<le> n \<and> n \<le> 222 \<and> n \<noteq> 215) then char_of (n + 32)
         else c)"

definition lower :: "string \<Rightarrow> string" where
  "lower s = map lower_char s"

fun hexlify :: "string \<Rightarrow> string" where
  "hexlify [] = []"
| "hexlify (c # cs) =
     digit_char ((of_char c :: nat) div 16) # digit_char ((of_char c :: nat) mod 16) # hexlify cs"

text \<open>
  Modelled from the spec: \<^verbatim>\<open>HEX_CHARS\<close> is a constant of
  \<^verbatim>\<open>passlib.utils.binary\<close>, a module outside the files verified here.  The classes
  of \<^verbatim>\<open>windows.py\<close> output lower-case hexadecimal digests and accept upper-case
  ones as well: the constant holds the hexadecimal digits in both cases.
\<close>

definition HEX_CHARS :: string where
  "HEX_CHARS = ''0123456789abcdefABCDEF''"

text \<open>
  The class takes no keyword: a keyword left over reaches \<^verbatim>\<open>object.__init__\<close>, which
  raises \<^verbatim>\<open>TypeError\<close>.
\<close>

definition no_kwds :: "bool \<Rightarrow> kwds \<Rightarrow> nat \<Rightarrow> error + unit" where
  "no_kwds use_dflt kwds rng =
     (if kwds = [] then Inr () else Inl (TypeError ''unexpected keyword argument''))"

text \<open>
  \<^verbatim>\<open>nthash\<close>: 32 hexadecimal characters, lower-cased when parsed.  \<open>raw\<close> is
  \<^verbatim>\<open>nthash.raw\<close>, the MD4 digest of the secret encoded as UTF-16; the digest comes
  from a library outside the verified files and is a parameter.
\<close>

definition nthash_calc_checksum :: "(pyval \<Rightarrow> error + string) \<Rightarrow> unit hasher \<Rightarrow> pyval \<Rightarrow> error + pyval" where
  "nthash_calc_checksum raw self secret =
     (case raw secret of Inl e \<Rightarrow> Inl e | Inr d \<Rightarrow> Inr (PStr (hexlify d)))"

definition nthash :: "(pyval \<Rightarrow> error + string) \<Rightarrow> unit handler_class" where
  "nthash raw =
     StaticHandler ''nthash'' (Some 32) (Some HEX_CHARS) [] lower no_kwds
       (nthash_calc_checksum raw)"

text \<open>
  A stand-in for the digest, for evaluating the class on concrete secrets: the first 16
  bytes of the secret, padded with zero bytes.
\<close>

definition sample_raw :: "pyval \<Rightarrow> error + string" where
  "sample_raw secret =
     (case secret of
        PStr s \<Rightarrow> Inr (take 16 (s @ replicate 16 (char_of (0::nat))))
      | PBytes b \<Rightarrow> Inr (take 16 (b @ replicate 16 (char_of (0::nat))))
      | _ \<Rightarrow> Inl (ExpectedStringError secret ''secret''))"

section \<open>PrefixWrapper\<close>

text \<open>
  A \<^verbatim>\<open>PrefixWrapper\<close>: its name, the \<^verbatim>\<open>prefix\<close> it puts in front of the
  hashes, the \<^verbatim>\<open>orig_prefix\<close> it strips, and the handler it wraps.
\<close>

record 'a prefix_wrapper =
  w_name :: string
  w_prefix :: string
  orig_prefix :: string
  wrapped :: "'a handler_class"

text \<open>\<^verbatim>\<open>_unwrap_hash\<close>: the hash is text already.\<close>

definition unwrap_hash :: "'a prefix_wrapper \<Rightarrow> string \<Rightarrow> error + string" where
  "unwrap_hash w h =
     (if \<not> prefix (w_prefix w) h then Inl (InvalidHashError (Some (w_name w)))
      else Inr (orig_prefix w @ drop (length (w_prefix w)) h))"

text \<open>
  \<^verbatim>\<open>_wrap_hash\<close>: bytes are decoded as ASCII first; a value that is neither text nor
  bytes has no \<^verbatim>\<open>startswith\<close>.
\<close>

definition wrap_hash :: "'a prefix_wrapper \<Rightarrow> pyval \<Rightarrow> error + string" where
  "wrap_hash w hash_arg =
     (case (case hash_arg of
              PStr s \<Rightarrow> Inr s
            | PBytes b \<Rightarrow> (case decode_ascii b of
                             Some s \<Rightarrow> Inr s
                           | None \<Rightarrow> Inl UnicodeDecodeError)
            | _ \<Rightarrow> Inl (AttributeError ''startswith'')) of
        Inl e \<Rightarrow> Inl e
      | Inr h \<Rightarrow>
         if \<not> prefix (orig_prefix w) h then Inl (InvalidHashError (Some (name (wrapped w))))
         else Inr (w_prefix w @ drop (length (orig_prefix w)) h))"

text \<open>\<^verbatim>\<open>PrefixWrapper.identify\<close>, \<^verbatim>\<open>hash\<close> and \<^verbatim>\<open>verify\<close>.\<close>

definition wrapper_identify :: "(string \<Rightarrow> string option) \<Rightarrow> 'a prefix_wrapper \<Rightarrow> pyval \<Rightarrow> error + bool" where
  "wrapper_identify utf8 w hash_arg =
     (case to_unicode_for_identify utf8 hash_arg of
        Inl e \<Rightarrow> Inl e
      | Inr h \<Rightarrow>
         if \<not> prefix (w_prefix w) h then Inr False
         else (case unwrap_hash w h of
                 Inl e \<Rightarrow> Inl e
               | Inr h' \<Rightarrow> identify utf8 (wrapped w) (PStr h')))"

definition wrapper_hash :: "'a prefix_wrapper \<Rightarrow> int \<Rightarrow> nat \<Rightarrow> pyval \<Rightarrow> kwds \<Rightarrow> error + string" where
  "wrapper_hash w MAX_PASSWORD_SIZE rng secret kwds =
     (case hash (wrapped w) MAX_PASSWORD_SIZE rng secret kwds of
        Inl e \<Rightarrow> Inl e
      | Inr h \<Rightarrow> wrap_hash w (PStr h))"

definition wrapper_verify :: "'a prefix_wrapper \<Rightarrow> int \<Rightarrow> pyval \<Rightarrow> pyval \<Rightarrow> kwds \<Rightarrow> error + bool" where
  "wrapper_verify w MAX_PASSWORD_SIZE secret hash_arg kwds =
     (case to_unicode hash_arg ''hash'' of
        Inl e \<Rightarrow> Inl e
      | Inr h \<Rightarrow>
         (case unwrap_hash w h of
            Inl e \<Rightarrow> Inl e
          | Inr h' \<Rightarrow> verify (wrapped w) MAX_PASSWORD_SIZE secret (PStr h') kwds))"

text \<open>\<^verbatim>\<open>bsd_nthash\<close> of \<^verbatim>\<open>handlers/windows.py\<close>: \<^verbatim>\<open>nthash\<close> behind \<^verbatim>\<open>$3$$\<close>.\<close>

definition bsd_nthash :: "(pyval \<Rightarrow> error + string) \<Rightarrow> unit prefix_wrapper" where
  "bsd_nthash raw =
     \<lparr>w_name = ''bsd_nthash'', w_prefix = ''$3$$'', orig_prefix = [], wrapped = nthash raw\<rparr>"

section \<open>Normalising the rounds\<close>

text \<open>
  \<^verbatim>\<open>isinstance(value, int)\<close>: an \<^verbatim>\<open>int\<close>, or a \<^verbatim>\<open>bool\<close>, which is a subclass
  of it and counts as 1 or 0.
\<close>

definition int_value :: "pyval \<Rightarrow> int option" where
  "int_value v = (case v of
                    PInt i \<Rightarrow> Some i
                  | PBool b \<Rightarrow> Some (if b then 1 else 0)
                  | _ \<Rightarrow> None)"

definition too_low_msg :: "string \<Rightarrow> string \<Rightarrow> int \<Rightarrow> int \<Rightarrow> string" where
  "too_low_msg handler_name param v min_val =
     handler_name @ '': '' @ param @ '' ('' @ py_str v @ '') is too low, must be at least ''
       @ py_str min_val"

definition too_large_msg :: "string \<Rightarrow> string \<Rightarrow> int \<Rightarrow> int \<Rightarrow> string" where
  "too_large_msg handler_name param v max_val =
     handler_name @ '': '' @ param @ '' ('' @ py_str v @ '') is too large, cannot be more than ''
       @ py_str max_val"

text \<open>
  \<^verbatim>\<open>norm_integer(handler, value, min, max, param, relaxed)\<close>: the result, and the
  warnings issued on the way.  \<^verbatim>\<open>max\<close> is an integer or \<^verbatim>\<open>None\<close>, and counts
  only when it is neither \<^verbatim>\<open>None\<close> nor 0.
\<close>

definition norm_integer :: "string \<Rightarrow> pyval \<Rightarrow> int \<Rightarrow> int option \<Rightarrow> string \<Rightarrow> bool
                            \<Rightarrow> (error + pyval) \<times> warning list" where
  "norm_integer handler_name val min_val max_val param relaxed =
     (case int_value val of
        None \<Rightarrow> (Inl (ExpectedTypeError val ''integer'' param), [])
      | Some v \<Rightarrow>
         (let low = (v < min_val);
              msg1 = too_low_msg handler_name param v min_val
          in if low \<and> \<not> relaxed then (Inl (ValueError msg1), [])
             else
               (let val1 = (if low then PInt min_val else val);
                    v1 = (if low then min_val else v);
                    w1 = (if low then [PasslibHashWarning msg1] else [])
                in case max_val of
                     None \<Rightarrow> (Inr val1, w1)
                   | Some m \<Rightarrow>
                       if m \<noteq> 0 \<and> v1 > m
                       then (if relaxed
                             then (Inr (PInt m),
                                   w1 @ [PasslibHashWarning (too_large_msg handler_name param v1 m)])
                             else (Inl (ValueError (too_large_msg handler_name param v1 m)), w1))
                       else (Inr val1, w1))))"

text \<open>
  The attributes of a class with \<^verbatim>\<open>HasRounds\<close> that \<^verbatim>\<open>_norm_rounds\<close> reads, and
  \<^verbatim>\<open>HasRounds._norm_rounds(rounds, relaxed, param)\<close>.
\<close>

record rounds_class =
  r_name :: string
  min_rounds :: int
  max_rounds :: "int option"

definition norm_rounds :: "rounds_class \<Rightarrow> pyval \<Rightarrow> bool \<Rightarrow> string \<Rightarrow> (error + pyval) \<times> warning list" where
  "norm_rounds cls rounds relaxed param =
     norm_integer (r_name cls) rounds (min_rounds cls) (max_rounds cls) param relaxed"

section \<open>BackendMixin\<close>

text \<open>
  The class attributes of \<^verbatim>\<open>BackendMixin\<close>: \<^verbatim>\<open>backends\<close>, the active
  \<^verbatim>\<open>__backend\<close> (or \<^verbatim>\<open>None\<close>), \<^verbatim>\<open>_pending_backend\<close>,
  \<^verbatim>\<open>_pending_dry_run\<close> and \<^verbatim>\<open>_no_backend_suggestion\<close>.
\<close>

record backend_class =
  b_name :: string
  backends :: "string list"
  backend :: "string option"
  pending_backend :: "string option"
  pending_dry_run :: bool
  no_backend_suggestion :: "string option"

text \<open>
  A loader \<^verbatim>\<open>_load_backend_{name}\<close> is called with the backend's name and the
  dry-run flag, while the pending attributes are set; it returns a value or raises.
\<close>

type_synonym loaders = "backend_class \<Rightarrow> string \<Rightarrow> bool \<Rightarrow> error + pyval"

text \<open>\<^verbatim>\<open>BackendMixin._set_backend(name, dryrun)\<close>.\<close>

definition set_backend_loader :: "loaders \<Rightarrow> backend_class \<Rightarrow> string \<Rightarrow> bool \<Rightarrow> error + unit" where
  "set_backend_loader ld cls nm dryrun =
     (case ld cls nm dryrun of
        Inl e \<Rightarrow> Inl e
      | Inr ok \<Rightarrow>
         if ok = PBool False
         then Inl (MissingBackendError (b_name cls @ '': backend not available: '' @ nm))
         else if ok \<noteq> PBool True
         then Inl (AssertionError ''backend loaders must return True or False'')
         else Inr ())"

text \<open>
  The last part of \<^verbatim>\<open>set_backend\<close>, for a name that is neither \<^verbatim>\<open>"any"\<close> nor
  \<^verbatim>\<open>"default"\<close>: the name is validated and the loader runs with the pending
  attributes set, which the \<^verbatim>\<open>finally\<close> clause restores; the class switches to the
  backend unless this is a dry run.
\<close>

definition load_backend :: "loaders \<Rightarrow> backend_class \<Rightarrow> string \<Rightarrow> bool
                            \<Rightarrow> (error + string) \<times> backend_class" where
  "load_backend ld cls nm dryrun =
     (if nm \<notin> set (backends cls) then (Inl (UnknownBackendError (b_name cls) nm), cls)
      else
        (let pending = cls\<lparr>pending_backend := Some nm, pending_dry_run := dryrun\<rparr>
         in case set_backend_loader ld pending nm dryrun of
              Inl e \<Rightarrow> (Inl e, cls)
            | Inr _ \<Rightarrow> (Inr nm, if dryrun then cls else cls\<lparr>backend := Some nm\<rparr>)))"

text \<open>
  The first test of \<^verbatim>\<open>set_backend\<close>: is the active backend acceptable?  An empty
  name and an empty active backend count as false.
\<close>

definition active_backend_ok :: "backend_class \<Rightarrow> string \<Rightarrow> bool" where
  "active_backend_ok cls nm =
     (case backend cls of
        None \<Rightarrow> False
      | Some b \<Rightarrow> (nm = ''any'' \<and> b \<noteq> []) \<or> (nm \<noteq> [] \<and> nm = b))"

text \<open>
  \<^verbatim>\<open>cls.set_backend(name, dryrun=dryrun)\<close> as the loop over \<^verbatim>\<open>cls.backends\<close>
  calls it.  A backend that is itself called \<^verbatim>\<open>"any"\<close> or \<^verbatim>\<open>"default"\<close>
  makes the call enter the same loop again, without end: the interpreter raises
  \<^verbatim>\<open>RecursionError\<close>.
\<close>

definition set_backend_candidate :: "loaders \<Rightarrow> backend_class \<Rightarrow> string \<Rightarrow> bool
                                     \<Rightarrow> (error + string) \<times> backend_class" where
  "set_backend_candidate ld cls nm dryrun =
     (if active_backend_ok cls nm
      then (case backend cls of Some b \<Rightarrow> (Inr b, cls) | None \<Rightarrow> (Inr [], cls))
      else if nm = ''any'' \<or> nm = ''default'' then (Inl RecursionError, cls)
      else load_backend ld cls nm dryrun)"

text \<open>
  The loop \<^verbatim>\<open>for name in cls.backends\<close>, with \<^verbatim>\<open>default_error\<close>: a missing
  backend is passed over, the first security refusal is kept, any other error leaves the
  loop; when the candidates are used up the kept refusal, or else
  \<^verbatim>\<open>MissingBackendError\<close>, is raised.
\<close>

fun pick_backend :: "loaders \<Rightarrow> backend_class \<Rightarrow> bool \<Rightarrow> string list \<Rightarrow> error option
                     \<Rightarrow> (error + string) \<times> backend_class" where
  "pick_backend ld cls dryrun [] default_error =
     (case default_error of
        None \<Rightarrow>
          (Inl (MissingBackendError
                  (b_name cls @ '': no backends available''
                   @ (case no_backend_suggestion cls of Some t \<Rightarrow> t | None \<Rightarrow> []))), cls)
      | Some e \<Rightarrow> (Inl e, cls))"
| "pick_backend ld cls dryrun (nm # rest) default_error =
     (case set_backend_candidate ld cls nm dryrun of
        (Inr b, cls') \<Rightarrow> (Inr b, cls')
      | (Inl e, cls') \<Rightarrow>
          if is_MissingBackendError e then pick_backend ld cls' dryrun rest default_error
          else if is_PasslibSecurityError e
          then pick_backend ld cls' dryrun rest
                 (case default_error of None \<Rightarrow> Some e | Some d \<Rightarrow> Some d)
          else (Inl e, cls'))"

text \<open>
  \<^verbatim>\<open>BackendMixin.set_backend(name, dryrun)\<close>; the class owns its backend
  (\<^verbatim>\<open>_get_backend_owner\<close> returns \<^verbatim>\<open>cls\<close>).  The result is the name returned or
  the error raised, and the class afterwards.
\<close>

definition set_backend :: "loaders \<Rightarrow> backend_class \<Rightarrow> string \<Rightarrow> bool
                           \<Rightarrow> (error + string) \<times> backend_class" where
  "set_backend ld cls nm dryrun =
     (if active_backend_ok cls nm
      then (case backend cls of Some b \<Rightarrow> (Inr b, cls) | None \<Rightarrow> (Inr [], cls))
      else if nm = ''any'' \<or> nm = ''default''
      then pick_backend ld cls dryrun (backends cls) None
      else load_backend ld cls nm dryrun)"

text \<open>
  A class with three backends, for evaluating the selection: the loader of
  \<^verbatim>\<open>bcrypt\<close> finds nothing installed, that of \<^verbatim>\<open>os_crypt\<close> refuses for
  security, that of \<^verbatim>\<open>builtin\<close> succeeds.
\<close>

definition sample_loaders :: loaders where
  "sample_loaders cls nm dryrun =
     (if nm = ''os_crypt'' then Inl (PasslibSecurityError ''os_crypt: unsafe version'')
      else if nm = ''bcrypt'' then Inr (PBool False)
      else if nm = ''builtin'' then Inr (PBool True)
      else Inr PNone)"

definition sample_backends :: "string list \<Rightarrow> backend_class" where
  "sample_backends names =
     \<lparr>b_name = ''sample'', backends = names, backend = None,
      pending_backend = None, pending_dry_run = False, no_backend_suggestion = None\<rparr>"

section \<open>Properties of hash, verify and identify\<close>



text \<open>
  Behind a \<^verbatim>\<open>PrefixWrapper\<close> the same check is reached by \<^verbatim>\<open>hash\<close> at once,
  and by \<^verbatim>\<open>verify\<close> once the hash string has been converted to text and unwrapped;
  a hash string that does not carry the wrapper's prefix is reported before the secret is
  looked at.
\<close>

lemma wrapper_secret_size_ceiling:
  assumes "isinstance_unicode_or_bytes secret" and "int (py_len secret) > MAX_PASSWORD_SIZE"
  shows "wrapper_hash w MAX_PASSWORD_SIZE rng secret kwds
           = Inl (PasswordSizeError MAX_PASSWORD_SIZE ''password exceeds maximum allowed size'')"
    and "prefix (w_prefix w) h \<Longrightarrow>
         wrapper_verify w MAX_PASSWORD_SIZE secret (PStr h) kwds
           = Inl (PasswordSizeError MAX_PASSWORD_SIZE ''password exceeds maximum allowed size'')"
    and "\<not> prefix (w_prefix w) h \<Longrightarrow>
         wrapper_verify w MAX_PASSWORD_SIZE secret (PStr h) kwds
           = Inl (InvalidHashError (Some (w_name w)))"
  using assms
  by (simp_all add: wrapper_hash_def wrapper_verify_def hash_def verify_def validate_secret_def
      password_size_error_def to_unicode_def unwrap_hash_def)

subsection \<open>Verify after hash\<close>

lemma lt16_cases: "(k::nat) < 16 \<Longrightarrow> k \<in> set [0,1,2,3,4,5,6,7,8,9,10,11,12,13,14,15]"
  by (simp; arith)

lemma digit_char_hex: "k < 16 \<Longrightarrow> digit_char k \<in> set ''0123456789abcdef''"
  using lt16_cases [of k] by (auto simp: digit_char_def)

lemma digit_char_lower: "k < 16 \<Longrightarrow> lower_char (digit_char k) = digit_char k"
  using lt16_cases [of k] by (auto simp: digit_char_def lower_char_def)

lemma length_hexlify: "length (hexlify d) = 2 * length d"
  by (induction d) auto

lemma set_hexlify: "set (hexlify d) \<subseteq> set ''0123456789abcdef''"
proof (induction d)
  case Nil
  then show ?case by simp
next
  case (Cons c d)
  have "digit_char ((of_char c :: nat) div 16) \<in> set ''0123456789abcdef''"
    by (rule digit_char_hex) (simp add: less_mult_imp_div_less)
  moreover have "digit_char ((of_char c :: nat) mod 16) \<in> set ''0123456789abcdef''"
    by (rule digit_char_hex) simp
  ultimately show ?case using Cons by simp
qed

lemma lower_hexlify: "lower (hexlify d) = hexlify d"
proof (induction d)
  case Nil
  then show ?case by (simp add: lower_def)
next
  case (Cons c d)
  have "(of_char c :: nat) div 16 < 16"
    by (simp add: less_mult_imp_div_less)
  then show ?case using Cons
    by (simp add: lower_def digit_char_lower)
qed

lemma hex_digits_in_HEX_CHARS: "set ''0123456789abcdef'' \<subseteq> set HEX_CHARS"
  by (simp add: HEX_CHARS_def)

lemma hexlify_chars: "list_all (\<lambda>ch. ch \<in> set HEX_CHARS) (hexlify d)"
  unfolding list_all_iff
  using set_hexlify [of d] hex_digits_in_HEX_CHARS by blast

lemma hex_norm_checksum:
  assumes "length d = 16" and "checksum_size cls = Some 32"
    and "checksum_chars cls = Some HEX_CHARS" and "\<not> checksum_is_bytes cls"
  shows "norm_checksum cls (PStr (hexlify d)) False = (Inr (PStr (hexlify d)), [])"
  using assms hexlify_chars [of d]
  by (simp add: norm_checksum_def py_len_def length_hexlify)

lemma nthash_from_string:
  assumes "length d = 16"
  shows "from_string (nthash raw) (PStr (hexlify d)) []
           = Inr \<lparr>checksum = Some (PStr (hexlify d)), use_defaults = False, settings = ()\<rparr>"
  using assms
  by (simp add: nthash_def StaticHandler_def static_from_string_def to_unicode_def
      lower_hexlify init_def hex_norm_checksum no_kwds_def)

lemma consteq_refl: "isinstance_unicode_or_bytes c \<Longrightarrow> consteq c c = Inr True"
  by (cases c) (simp_all add: consteq_def isinstance_unicode_or_bytes_def)

lemma verify_hash_core:
  assumes "validate_secret M secret = Inr ()"
    and "init cls None True kwds rng = Inr self"
    and "calc_checksum cls self secret = Inr chk"
    and "to_string cls (self\<lparr>checksum := Some chk\<rparr>) = Inr h"
    and "from_string cls (PStr h) kwds = Inr self'"
    and "settings self' = settings self"
    and "checksum self' = Some chk"
    and "\<forall>a b. settings a = settings b \<longrightarrow> calc_checksum cls a secret = calc_checksum cls b secret"
    and "isinstance_unicode_or_bytes chk"
  shows "hash cls M rng secret kwds = Inr h \<and> verify cls M secret (PStr h) kwds = Inr True"
proof -
  have "calc_checksum cls self' secret = calc_checksum cls self secret"
    using assms(6,8) by blast
  then have c: "calc_checksum cls self' secret = Inr chk"
    using assms(3) by simp
  have "hash cls M rng secret kwds = Inr h"
    using assms(1-4) by (simp add: hash_def)
  moreover have "verify cls M secret (PStr h) kwds = Inr True"
    using assms(1,5,7,9) c by (simp add: verify_def consteq_refl)
  ultimately show ?thesis by simp
qed

text \<open>
  Claim C1.  \<^verbatim>\<open>hash\<close> builds an instance with defaults, computes the checksum
  and renders it; \<^verbatim>\<open>verify\<close> parses that string again, recomputes the checksum and
  compares.  For a handler class whose parser gives back the settings and the checksum
  that were rendered, and whose checksum routine is a function of the secret and the
  settings only, and for a secret that \<^verbatim>\<open>validate_secret\<close> accepts:
  \<^verbatim>\<open>verify(s, hash(s))\<close> is \<^verbatim>\<open>True\<close>.
\<close>

theorem verify_hash_roundtrip:
  assumes "validate_secret MAX_PASSWORD_SIZE secret = Inr ()"
    and "init cls None True kwds rng = Inr self"
    and "calc_checksum cls self secret = Inr chk"
    and "to_string cls (self\<lparr>checksum := Some chk\<rparr>) = Inr h"
    and "from_string cls (PStr h) kwds = Inr self'"
    and "settings self' = settings self"
    and "checksum self' = Some chk"
    and "\<forall>a b. settings a = settings b
           \<longrightarrow> calc_checksum cls a secret = calc_checksum cls b secret"
    and "isinstance_unicode_or_bytes chk"
  shows "hash cls MAX_PASSWORD_SIZE rng secret kwds = Inr h
         \<and> verify cls MAX_PASSWORD_SIZE secret (PStr h) kwds = Inr True"
  using assms by (rule verify_hash_core)

theorem verify_hash_roundtrip_witness:
  "hash (nthash sample_raw) 4096 0 (PStr ''secret'') [] = Inr ''73656372657400000000000000000000''
   \<and> verify (nthash sample_raw) 4096 (PStr ''secret'')
        (PStr ''73656372657400000000000000000000'') [] = Inr True"
proof -
  let ?d = "''secret'' @ replicate 10 (char_of (0::nat))"
  let ?cls = "nthash sample_raw"
  have hx: "hexlify ?d = ''73656372657400000000000000000000''"
    by code_simp
  have len: "length ?d = 16"
    by simp
  have v: "validate_secret 4096 (PStr ''secret'') = Inr ()"
    by (simp add: validate_secret_def isinstance_unicode_or_bytes_def py_len_def)
  have i: "init ?cls None True [] 0 = Inr \<lparr>checksum = None, use_defaults = True, settings = ()\<rparr>"
    by (simp add: init_def nthash_def StaticHandler_def no_kwds_def)
  have c: "calc_checksum ?cls \<lparr>checksum = None, use_defaults = True, settings = ()\<rparr> (PStr ''secret'')
             = Inr (PStr (hexlify ?d))"
    by (simp add: nthash_def StaticHandler_def nthash_calc_checksum_def sample_raw_def)
  have t: "to_string ?cls (\<lparr>checksum = None, use_defaults = True, settings = ()\<rparr>
              \<lparr>checksum := Some (PStr (hexlify ?d))\<rparr>) = Inr (hexlify ?d)"
    by (simp add: nthash_def StaticHandler_def static_to_string_def)
  have f: "from_string ?cls (PStr (hexlify ?d)) []
             = Inr \<lparr>checksum = Some (PStr (hexlify ?d)), use_defaults = False, settings = ()\<rparr>"
    using len by (rule nthash_from_string)
  have det: "\<forall>a b. settings a = settings b \<longrightarrow>
               calc_checksum ?cls a (PStr ''secret'') = calc_checksum ?cls b (PStr ''secret'')"
    by (simp add: nthash_def StaticHandler_def nthash_calc_checksum_def)
  have "hash ?cls 4096 0 (PStr ''secret'') [] = Inr (hexlify ?d)
        \<and> verify ?cls 4096 (PStr ''secret'') (PStr (hexlify ?d)) [] = Inr True"
    by (rule verify_hash_roundtrip [OF v i c t f _ _ det])
       (simp_all add: isinstance_unicode_or_bytes_def)
  then show ?thesis
    unfolding hx .
qed

text \<open>
  The class \<^verbatim>\<open>nthash\<close> meets these conditions for every secret of which the digest
  is 16 bytes long.
\<close>

lemma nthash_verify_hash:
  assumes "validate_secret M secret = Inr ()" and "raw secret = Inr d" and "length d = 16"
  shows "hash (nthash raw) M rng secret [] = Inr (hexlify d)
         \<and> verify (nthash raw) M secret (PStr (hexlify d)) [] = Inr True"
proof (rule verify_hash_core)
  show "validate_secret M secret = Inr ()" by fact
  show "init (nthash raw) None True [] rng
          = Inr \<lparr>checksum = None, use_defaults = True, settings = ()\<rparr>"
    by (simp add: init_def nthash_def StaticHandler_def no_kwds_def)
  show "calc_checksum (nthash raw) \<lparr>checksum = None, use_defaults = True, settings = ()\<rparr> secret
          = Inr (PStr (hexlify d))"
    using assms(2) by (simp add: nthash_def StaticHandler_def nthash_calc_checksum_def)
  show "to_string (nthash raw)
          (\<lparr>checksum = None, use_defaults = True, settings = ()\<rparr>\<lparr>checksum := Some (PStr (hexlify d))\<rparr>)
          = Inr (hexlify d)"
    by (simp add: nthash_def StaticHandler_def static_to_string_def)
  show "from_string (nthash raw) (PStr (hexlify d)) []
          = Inr \<lparr>checksum = Some (PStr (hexlify d)), use_defaults = False, settings = ()\<rparr>"
    using assms(3) by (rule nthash_from_string)
  show "\<forall>a b. settings a = settings b \<longrightarrow>
          calc_checksum (nthash raw) a secret = calc_checksum (nthash raw) b secret"
    by (simp add: nthash_def StaticHandler_def nthash_calc_checksum_def)
qed (simp_all add: isinstance_unicode_or_bytes_def)

subsection \<open>Identify\<close>

text \<open>
  Claim C9, as the code has it.  A value that is neither text nor bytes makes
  \<^verbatim>\<open>identify\<close> raise \<^verbatim>\<open>TypeError\<close>.  For text and bytes the conversion succeeds,
  and \<^verbatim>\<open>identify\<close> returns a boolean when the text is empty, when the class has an
  \<^verbatim>\<open>ident\<close> or a \<^verbatim>\<open>_hash_regex\<close>, or when \<^verbatim>\<open>from_string\<close> raises nothing but
  \<^verbatim>\<open>ValueError\<close>; in the fallback an error of \<^verbatim>\<open>from_string\<close> becomes
  \<^verbatim>\<open>False\<close> when it is a \<^verbatim>\<open>ValueError\<close> and is raised again otherwise.
\<close>

theorem identify_result:
  "(\<not> isinstance_unicode_or_bytes hash_arg \<longrightarrow>
      identify utf8 cls hash_arg
        = Inl (TypeError (''hash must be str or bytes, not '' @ type_name hash_arg)))
   \<and> (isinstance_unicode_or_bytes hash_arg \<longrightarrow>
        (\<exists>h. to_unicode_for_identify utf8 hash_arg = Inr h
           \<and> ((h = [] \<or> ident cls \<noteq> None \<or> hash_regex cls \<noteq> None
                \<or> (\<forall>e. from_string cls (PStr h) [] = Inl e \<longrightarrow> is_ValueError e))
               \<longrightarrow> (\<exists>b. identify utf8 cls hash_arg = Inr b))
           \<and> (\<forall>e. h \<noteq> [] \<and> ident cls = None \<and> hash_regex cls = None
                    \<and> from_string cls (PStr h) [] = Inl e
                  \<longrightarrow> identify utf8 cls hash_arg = (if is_ValueError e then Inr False else Inl e))))"
proof (cases "isinstance_unicode_or_bytes hash_arg")
  case False
  then show ?thesis
    by (cases hash_arg)
       (simp_all add: identify_def to_unicode_for_identify_def isinstance_unicode_or_bytes_def
          ExpectedStringError_def ExpectedTypeError_def)
next
  case True
  then have "\<exists>h. to_unicode_for_identify utf8 hash_arg = Inr h"
    by (cases hash_arg)
       (simp_all add: to_unicode_for_identify_def isinstance_unicode_or_bytes_def
          split: option.split)
  then obtain h where h: "to_unicode_for_identify utf8 hash_arg = Inr h" ..
  have a: "(h = [] \<or> ident cls \<noteq> None \<or> hash_regex cls \<noteq> None
             \<or> (\<forall>e. from_string cls (PStr h) [] = Inl e \<longrightarrow> is_ValueError e))
            \<longrightarrow> (\<exists>b. identify utf8 cls hash_arg = Inr b)"
    using h by (auto simp: identify_def split: option.splits sum.splits)
  have b: "\<forall>e. h \<noteq> [] \<and> ident cls = None \<and> hash_regex cls = None
                \<and> from_string cls (PStr h) [] = Inl e
              \<longrightarrow> identify utf8 cls hash_arg = (if is_ValueError e then Inr False else Inl e)"
    using h by (simp add: identify_def)
  show ?thesis
    using True h a b by blast
qed

theorem identify_result_witness:
  "identify decode_ascii (nthash sample_raw) (PStr ''zz'') = Inr False
   \<and> identify decode_ascii (nthash sample_raw) (PBytes ''73656372657400000000000000000000'')
       = Inr True
   \<and> identify decode_ascii (nthash sample_raw) (PInt 3)
       = Inl (TypeError ''hash must be str or bytes, not int'')"
  using identify_result [of "PStr ''zz''" decode_ascii "nthash sample_raw"]
        identify_result [of "PBytes ''73656372657400000000000000000000''" decode_ascii
                            "nthash sample_raw"]
        identify_result [of "PInt 3" decode_ascii "nthash sample_raw"]
  by (simp add: identify_def to_unicode_for_identify_def isinstance_unicode_or_bytes_def
      decode_ascii_def nthash_def StaticHandler_def static_from_string_def to_unicode_def
      lower_def lower_char_def init_def no_kwds_def norm_checksum_def py_len_def HEX_CHARS_def
      ChecksumSizeError_def MalformedHashError_def)

text \<open>
  The claim as it was stated says that \<^verbatim>\<open>identify\<close> returns \<^verbatim>\<open>False\<close> for an input
  that is not text or bytes: for \<^verbatim>\<open>None\<close> it raises \<^verbatim>\<open>TypeError\<close>.
\<close>

theorem identify_never_raises_counterexample:
  "identify decode_ascii (nthash sample_raw) PNone
     = Inl (TypeError ''hash must be str or bytes, not None'')"
  by (simp add: identify_def to_unicode_for_identify_def ExpectedStringError_def
      ExpectedTypeError_def)

section \<open>Properties of the prefix wrapper\<close>

text \<open>
  Claim C4.  For a hash \<open>h\<close> that starts with \<^verbatim>\<open>orig_prefix\<close>, as the hashes of the
  wrapped handler do: \<^verbatim>\<open>_unwrap_hash(_wrap_hash(h))\<close> is \<open>h\<close>; the wrapper identifies
  the wrapped hash whenever the wrapped handler identifies \<open>h\<close>; and the wrapper does not
  identify \<open>h\<close> itself when \<open>h\<close> does not start with the wrapper's prefix.
\<close>

theorem prefix_wrapper_bijective:
  assumes "prefix (orig_prefix w) h"
  shows "wrap_hash w (PStr h) = Inr (w_prefix w @ drop (length (orig_prefix w)) h)
         \<and> unwrap_hash w (w_prefix w @ drop (length (orig_prefix w)) h) = Inr h
         \<and> (identify utf8 (wrapped w) (PStr h) = Inr True \<longrightarrow>
              wrapper_identify utf8 w (PStr (w_prefix w @ drop (length (orig_prefix w)) h))
                = Inr True)
         \<and> (\<not> prefix (w_prefix w) h \<longrightarrow> wrapper_identify utf8 w (PStr h) = Inr False)"
proof -
  from assms obtain t where h: "h = orig_prefix w @ t"
    by (auto simp: prefix_def)
  show ?thesis
    by (simp add: h wrap_hash_def unwrap_hash_def wrapper_identify_def
        to_unicode_for_identify_def)
qed

theorem prefix_wrapper_bijective_witness:
  "wrap_hash (bsd_nthash sample_raw) (PStr ''73656372657400000000000000000000'')
     = Inr ''$3$$73656372657400000000000000000000''
   \<and> unwrap_hash (bsd_nthash sample_raw) ''$3$$73656372657400000000000000000000''
     = Inr ''73656372657400000000000000000000''
   \<and> wrapper_identify decode_ascii (bsd_nthash sample_raw)
        (PStr ''$3$$73656372657400000000000000000000'') = Inr True
   \<and> wrapper_identify decode_ascii (bsd_nthash sample_raw)
        (PStr ''73656372657400000000000000000000'') = Inr False"
proof -
  have i: "identify decode_ascii (nthash sample_raw) (PStr ''73656372657400000000000000000000'')
             = Inr True"
    by (simp add: identify_def to_unicode_for_identify_def nthash_def StaticHandler_def
        static_from_string_def to_unicode_def lower_def lower_char_def init_def no_kwds_def
        norm_checksum_def py_len_def HEX_CHARS_def)
  show ?thesis
    using prefix_wrapper_bijective [of "bsd_nthash sample_raw"
            "''73656372657400000000000000000000''" decode_ascii] i
    by (simp add: bsd_nthash_def)
qed

section \<open>Properties of the rounds normaliser\<close>

text \<open>
  Claim C8.  For a class with a minimum and a maximum number of rounds: a value below the
  minimum becomes the minimum in relaxed mode, with one warning, and raises
  \<^verbatim>\<open>ValueError\<close> in strict mode; a value above the maximum becomes the maximum in
  relaxed mode, with one warning, and raises \<^verbatim>\<open>ValueError\<close> in strict mode; a value
  within the bounds is returned as it is; a value that is not an integer raises
  \<^verbatim>\<open>TypeError\<close> in both modes.
\<close>

theorem norm_rounds_clamping:
  assumes "max_rounds cls = Some mx" and "min_rounds cls \<le> mx" and "mx \<noteq> 0"
  shows "(v < min_rounds cls \<longrightarrow>
            norm_rounds cls (PInt v) True param
              = (Inr (PInt (min_rounds cls)),
                 [PasslibHashWarning (too_low_msg (r_name cls) param v (min_rounds cls))])
          \<and> norm_rounds cls (PInt v) False param
              = (Inl (ValueError (too_low_msg (r_name cls) param v (min_rounds cls))), []))
       \<and> (v > mx \<longrightarrow>
            norm_rounds cls (PInt v) True param
              = (Inr (PInt mx), [PasslibHashWarning (too_large_msg (r_name cls) param v mx)])
          \<and> norm_rounds cls (PInt v) False param
              = (Inl (ValueError (too_large_msg (r_name cls) param v mx)), []))
       \<and> (min_rounds cls \<le> v \<and> v \<le> mx \<longrightarrow>
            norm_rounds cls (PInt v) relaxed param = (Inr (PInt v), []))
       \<and> (int_value x = None \<longrightarrow>
            norm_rounds cls x relaxed param
              = (Inl (TypeError (param @ '' must be integer, not '' @ type_name x)), []))"
  using assms
  by (simp add: norm_rounds_def norm_integer_def int_value_def ExpectedTypeError_def Let_def)

theorem norm_rounds_clamping_witness:
  "norm_rounds \<lparr>r_name = ''sha256_crypt'', min_rounds = 1000, max_rounds = Some 9999\<rparr>
     (PInt 50) True ''rounds''
     = (Inr (PInt 1000),
        [PasslibHashWarning ''sha256_crypt: rounds (50) is too low, must be at least 1000''])
   \<and> norm_rounds \<lparr>r_name = ''sha256_crypt'', min_rounds = 1000, max_rounds = Some 9999\<rparr>
     (PInt 50) False ''rounds''
     = (Inl (ValueError ''sha256_crypt: rounds (50) is too low, must be at least 1000''), [])
   \<and> norm_rounds \<lparr>r_name = ''sha256_crypt'', min_rounds = 1000, max_rounds = Some 9999\<rparr>
     (PInt 10000) True ''rounds''
     = (Inr (PInt 9999),
        [PasslibHashWarning
           ''sha256_crypt: rounds (10000) is too large, cannot be more than 9999''])
   \<and> norm_rounds \<lparr>r_name = ''sha256_crypt'', min_rounds = 1000, max_rounds = Some 9999\<rparr>
     (PInt 10000) False ''rounds''
     = (Inl (ValueError
               ''sha256_crypt: rounds (10000) is too large, cannot be more than 9999''), [])
   \<and> norm_rounds \<lparr>r_name = ''sha256_crypt'', min_rounds = 1000, max_rounds = Some 9999\<rparr>
     (PStr ''50'') True ''rounds''
     = (Inl (TypeError ''rounds must be integer, not str''), [])
   \<and> norm_rounds \<lparr>r_name = ''sha256_crypt'', min_rounds = 1000, max_rounds = Some 9999\<rparr>
     (PStr ''50'') False ''rounds''
     = (Inl (TypeError ''rounds must be integer, not str''), [])"
proof -
  let ?cls = "\<lparr>r_name = ''sha256_crypt'', min_rounds = 1000, max_rounds = Some 9999\<rparr>"
  have s50: "py_str 50 = ''50''"
    by (simp add: py_str_def int_digits_def nat_digits.simps digit_char_def)
  have s1000: "py_str 1000 = ''1000''"
    by (simp add: py_str_def int_digits_def nat_digits.simps digit_char_def)
  have s9999: "py_str 9999 = ''9999''"
    by (simp add: py_str_def int_digits_def nat_digits.simps digit_char_def)
  have s10000: "py_str 10000 = ''10000''"
    by (simp add: py_str_def int_digits_def nat_digits.simps digit_char_def)
  show ?thesis
    using norm_rounds_clamping [of ?cls 9999 50 "''rounds''" True "PStr ''50''"]
          norm_rounds_clamping [of ?cls 9999 10000 "''rounds''" False "PStr ''50''"]
    by (simp add: too_low_msg_def too_large_msg_def int_value_def s50 s1000 s9999 s10000)
qed

section \<open>Properties of the backend selection\<close>

lemma candidate_failure_keeps_class:
  "fst (set_backend_candidate ld cls x dryrun) = Inl e
   \<Longrightarrow> set_backend_candidate ld cls x dryrun = (Inl e, cls)"
  by (auto simp: set_backend_candidate_def load_backend_def Let_def
      split: if_splits option.splits sum.splits)

lemma pick_backend_skips:
  assumes "\<forall>x\<in>set pre. \<exists>e. fst (set_backend_candidate ld cls x dryrun) = Inl e
             \<and> (is_MissingBackendError e \<or> is_PasslibSecurityError e)"
    and "fst (set_backend_candidate ld cls b dryrun) = Inr r"
  shows "pick_backend ld cls dryrun (pre @ b # post) de = set_backend_candidate ld cls b dryrun"
  using assms
proof (induction pre arbitrary: de)
  case Nil
  then show ?case
    by (cases "set_backend_candidate ld cls b dryrun") simp
next
  case (Cons x pre)
  from Cons.prems(1) obtain e where
    e: "fst (set_backend_candidate ld cls x dryrun) = Inl e"
       "is_MissingBackendError e \<or> is_PasslibSecurityError e"
    by auto
  have c: "set_backend_candidate ld cls x dryrun = (Inl e, cls)"
    using e(1) by (rule candidate_failure_keeps_class)
  have rest: "\<And>d. pick_backend ld cls dryrun (pre @ b # post) d
                 = set_backend_candidate ld cls b dryrun"
    using Cons.IH Cons.prems by simp
  show ?case
    using e(2) by (auto simp: c rest)
qed

lemma pick_backend_kept_refusal:
  assumes "\<forall>x\<in>set xs. \<exists>e. fst (set_backend_candidate ld cls x dryrun) = Inl e
             \<and> (is_MissingBackendError e \<or> is_PasslibSecurityError e)"
  shows "pick_backend ld cls dryrun xs (Some d) = (Inl d, cls)"
  using assms
proof (induction xs)
  case Nil
  then show ?case by simp
next
  case (Cons x xs)
  from Cons.prems obtain e where
    e: "fst (set_backend_candidate ld cls x dryrun) = Inl e"
       "is_MissingBackendError e \<or> is_PasslibSecurityError e"
    by auto
  have c: "set_backend_candidate ld cls x dryrun = (Inl e, cls)"
    using e(1) by (rule candidate_failure_keeps_class)
  have "pick_backend ld cls dryrun xs (Some d) = (Inl d, cls)"
    using Cons by simp
  then show ?case
    using e(2) by (auto simp: c)
qed

lemma pick_backend_first_refusal:
  assumes "\<forall>x\<in>set pre. \<exists>e. fst (set_backend_candidate ld cls x dryrun) = Inl e
             \<and> is_MissingBackendError e"
    and "fst (set_backend_candidate ld cls s dryrun) = Inl e0"
    and "is_PasslibSecurityError e0"
    and "\<forall>x\<in>set post. \<exists>e. fst (set_backend_candidate ld cls x dryrun) = Inl e
             \<and> (is_MissingBackendError e \<or> is_PasslibSecurityError e)"
  shows "pick_backend ld cls dryrun (pre @ s # post) None = (Inl e0, cls)"
  using assms(1)
proof (induction pre)
  case Nil
  have c: "set_backend_candidate ld cls s dryrun = (Inl e0, cls)"
    using assms(2) by (rule candidate_failure_keeps_class)
  show ?case
    using assms(3) pick_backend_kept_refusal [OF assms(4), of e0]
    by (cases e0) (simp_all add: c)
next
  case (Cons x pre)
  from Cons.prems obtain e where
    e: "fst (set_backend_candidate ld cls x dryrun) = Inl e" "is_MissingBackendError e"
    by auto
  have c: "set_backend_candidate ld cls x dryrun = (Inl e, cls)"
    using e(1) by (rule candidate_failure_keeps_class)
  have "pick_backend ld cls dryrun (pre @ s # post) None = (Inl e0, cls)"
    using Cons by simp
  then show ?case
    using e(2) by (simp add: c)
qed

lemma candidate_is_loader:
  assumes "x \<in> set (backends cls)" and "x \<noteq> ''any''" and "x \<noteq> ''default''"
    and "backend cls \<noteq> Some x"
  shows "set_backend_candidate ld cls x dryrun = load_backend ld cls x dryrun"
  using assms
  by (auto simp: set_backend_candidate_def active_backend_ok_def split: option.splits)

text \<open>
  Claim C3.  \<^verbatim>\<open>set_backend("any")\<close> and \<^verbatim>\<open>set_backend("default")\<close>, when the
  active backend does not settle the call, go through \<^verbatim>\<open>cls.backends\<close> in order.
  A candidate that fails with \<^verbatim>\<open>MissingBackendError\<close> or \<^verbatim>\<open>PasslibSecurityError\<close>
  is passed over and the first candidate that loads is the result.  When every candidate
  fails in one of these two ways and one of them refused for security, the first refusal is
  raised and the class is unchanged.  The last part says what the attempt on a candidate
  is, for a candidate that is not the active backend: the outcome of its loader.
\<close>

theorem set_backend_security_refusal:
  assumes "nm = ''any'' \<or> nm = ''default''" and "\<not> active_backend_ok cls nm"
  shows "(backends cls = pre @ b # post
          \<and> (\<forall>x\<in>set pre. \<exists>e. fst (set_backend_candidate ld cls x dryrun) = Inl e
                \<and> (is_MissingBackendError e \<or> is_PasslibSecurityError e))
          \<and> fst (set_backend_candidate ld cls b dryrun) = Inr r
         \<longrightarrow> set_backend ld cls nm dryrun = set_backend_candidate ld cls b dryrun)
       \<and> (backends cls = pre @ s # post
          \<and> (\<forall>x\<in>set pre. \<exists>e. fst (set_backend_candidate ld cls x dryrun) = Inl e
                \<and> is_MissingBackendError e)
          \<and> fst (set_backend_candidate ld cls s dryrun) = Inl e0
          \<and> is_PasslibSecurityError e0
          \<and> (\<forall>x\<in>set post. \<exists>e. fst (set_backend_candidate ld cls x dryrun) = Inl e
                \<and> (is_MissingBackendError e \<or> is_PasslibSecurityError e))
         \<longrightarrow> set_backend ld cls nm dryrun = (Inl e0, cls))
       \<and> (x \<in> set (backends cls) \<and> x \<noteq> ''any'' \<and> x \<noteq> ''default'' \<and> backend cls \<noteq> Some x
         \<longrightarrow> set_backend_candidate ld cls x dryrun
               = (case ld (cls\<lparr>pending_backend := Some x, pending_dry_run := dryrun\<rparr>) x dryrun of
                    Inl e \<Rightarrow> (Inl e, cls)
                  | Inr ok \<Rightarrow>
                      if ok = PBool True
                      then (Inr x, if dryrun then cls else cls\<lparr>backend := Some x\<rparr>)
                      else if ok = PBool False
                      then (Inl (MissingBackendError
                                   (b_name cls @ '': backend not available: '' @ x)), cls)
                      else (Inl (AssertionError ''backend loaders must return True or False''),
                            cls)))"
proof -
  have top: "set_backend ld cls nm dryrun = pick_backend ld cls dryrun (backends cls) None"
    using assms by (auto simp: set_backend_def)
  have a: "backends cls = pre @ b # post
          \<and> (\<forall>x\<in>set pre. \<exists>e. fst (set_backend_candidate ld cls x dryrun) = Inl e
                \<and> (is_MissingBackendError e \<or> is_PasslibSecurityError e))
          \<and> fst (set_backend_candidate ld cls b dryrun) = Inr r
         \<longrightarrow> set_backend ld cls nm dryrun = set_backend_candidate ld cls b dryrun"
    using pick_backend_skips [of pre ld cls dryrun b r post None] by (simp add: top)
  have b: "backends cls = pre @ s # post
          \<and> (\<forall>x\<in>set pre. \<exists>e. fst (set_backend_candidate ld cls x dryrun) = Inl e
                \<and> is_MissingBackendError e)
          \<and> fst (set_backend_candidate ld cls s dryrun) = Inl e0
          \<and> is_PasslibSecurityError e0
          \<and> (\<forall>x\<in>set post. \<exists>e. fst (set_backend_candidate ld cls x dryrun) = Inl e
                \<and> (is_MissingBackendError e \<or> is_PasslibSecurityError e))
         \<longrightarrow> set_backend ld cls nm dryrun = (Inl e0, cls)"
    using pick_backend_first_refusal [of pre ld cls dryrun s e0 post] by (simp add: top)
  have c: "x \<in> set (backends cls) \<and> x \<noteq> ''any'' \<and> x \<noteq> ''default'' \<and> backend cls \<noteq> Some x
         \<longrightarrow> set_backend_candidate ld cls x dryrun
               = (case ld (cls\<lparr>pending_backend := Some x, pending_dry_run := dryrun\<rparr>) x dryrun of
                    Inl e \<Rightarrow> (Inl e, cls)
                  | Inr ok \<Rightarrow>
                      if ok = PBool True
                      then (Inr x, if dryrun then cls else cls\<lparr>backend := Some x\<rparr>)
                      else if ok = PBool False
                      then (Inl (MissingBackendError
                                   (b_name cls @ '': backend not available: '' @ x)), cls)
                      else (Inl (AssertionError ''backend loaders must return True or False''),
                            cls))"
    by (auto simp: candidate_is_loader load_backend_def set_backend_loader_def Let_def
        split: sum.splits)
  show ?thesis
    using a b c by blast
qed

theorem set_backend_security_refusal_witness:
  "set_backend sample_loaders (sample_backends [''bcrypt'', ''os_crypt'', ''builtin'']) ''any'' False
     = (Inr ''builtin'',
        (sample_backends [''bcrypt'', ''os_crypt'', ''builtin''])\<lparr>backend := Some ''builtin''\<rparr>)
   \<and> set_backend sample_loaders (sample_backends [''bcrypt'', ''os_crypt'', ''bcrypt'']) ''default'' False
     = (Inl (PasslibSecurityError ''os_crypt: unsafe version''),
        sample_backends [''bcrypt'', ''os_crypt'', ''bcrypt''])"
proof -
  let ?c1 = "sample_backends [''bcrypt'', ''os_crypt'', ''builtin'']"
  let ?c2 = "sample_backends [''bcrypt'', ''os_crypt'', ''bcrypt'']"
  have m1: "set_backend_candidate sample_loaders ?c1 ''bcrypt'' False
              = (Inl (MissingBackendError ''sample: backend not available: bcrypt''), ?c1)"
    and r1: "set_backend_candidate sample_loaders ?c1 ''os_crypt'' False
              = (Inl (PasslibSecurityError ''os_crypt: unsafe version''), ?c1)"
    and l1: "set_backend_candidate sample_loaders ?c1 ''builtin'' False
              = (Inr ''builtin'', ?c1\<lparr>backend := Some ''builtin''\<rparr>)"
    and m2: "set_backend_candidate sample_loaders ?c2 ''bcrypt'' False
              = (Inl (MissingBackendError ''sample: backend not available: bcrypt''), ?c2)"
    and r2: "set_backend_candidate sample_loaders ?c2 ''os_crypt'' False
              = (Inl (PasslibSecurityError ''os_crypt: unsafe version''), ?c2)"
    by (simp_all add: set_backend_candidate_def active_backend_ok_def sample_backends_def
        load_backend_def set_backend_loader_def sample_loaders_def)
  have a: "set_backend sample_loaders ?c1 ''any'' False
             = set_backend_candidate sample_loaders ?c1 ''builtin'' False"
    using set_backend_security_refusal
            [where nm = "''any''" and cls = ?c1 and pre = "[''bcrypt'', ''os_crypt'']"
               and b = "''builtin''" and post = "[]" and ld = sample_loaders and dryrun = False
               and r = "''builtin''"]
    by (simp add: m1 r1 l1) (simp add: active_backend_ok_def sample_backends_def)
  have b: "set_backend sample_loaders ?c2 ''default'' False
             = (Inl (PasslibSecurityError ''os_crypt: unsafe version''), ?c2)"
    using set_backend_security_refusal
            [where nm = "''default''" and cls = ?c2 and pre = "[''bcrypt'']"
               and s = "''os_crypt''" and post = "[''bcrypt'']" and ld = sample_loaders
               and dryrun = False
               and ?e0.0 = "PasslibSecurityError ''os_crypt: unsafe version''"]
    by (simp add: m2 r2) (simp add: active_backend_ok_def sample_backends_def)
  show ?thesis
    using a b l1 by simp
qed

section \<open>Properties of the codec\<close>

subsection \<open>Splitting, and the two kinds of error\<close>

lemma split_fields_char:
  "split_fields [d] (c # cs) =
     (if c = d then [] # split_fields [d] cs
      else (case split_fields [d] cs of f # fs \<Rightarrow> (c # f) # fs | [] \<Rightarrow> [[c]]))"
  by auto

lemma split_fields_no_sep: "d \<notin> set a \<Longrightarrow> split_fields [d] a = [a]"
  by (induction a) auto

lemma split_fields_sep:
  "d \<notin> set a \<Longrightarrow> split_fields [d] (a @ d # rest) = a # split_fields [d] rest"
  by (induction a) auto

lemma split_fields_not_Nil: "split_fields sep s \<noteq> []"
  by (induction sep s rule: split_fields.induct) (auto split: list.splits)

lemma length_split_fields: "length (split_fields [d] s) = Suc (count_list s d)"
proof (induction s)
  case Nil
  then show ?case by simp
next
  case (Cons c s)
  then show ?case
    using split_fields_not_Nil [of "[d]" s]
    by (cases "split_fields [d] s") auto
qed

lemma Invalid_neq_Malformed: "InvalidHashError h \<noteq> MalformedHashError h' r"
  by (simp add: InvalidHashError_def MalformedHashError_def Let_def split: option.split)

lemma py_int_errors:
  "py_int r b = Inl e \<Longrightarrow>
     e = invalid_literal \<or> e = ValueError ''int() base must be >= 2 and <= 36, or 0''"
  by (auto simp: py_int_def int_literal_def
      split: if_splits list.splits option.splits prod.splits sum.splits)

lemma py_int_not_Invalid: "py_int r b \<noteq> Inl (InvalidHashError h)"
  using py_int_errors [of r b "InvalidHashError h"]
  by (auto simp: InvalidHashError_def invalid_literal_def)


lemma parse_mc2_text:
  "parse_mc2 (PStr h) pfx UDOLLAR handler =
     (if \<not> prefix pfx h then Inl (InvalidHashError handler)
      else (case split_fields UDOLLAR (drop (length pfx) h) of
              [salt, chk] \<Rightarrow> Inr (salt, or_None (Some chk))
            | [salt] \<Rightarrow> Inr (salt, None)
            | _ \<Rightarrow> Inl (MalformedHashError handler None)))"
  by (simp add: parse_mc2_def to_unicode_def py_split_def UDOLLAR_def)

lemma parse_mc3_text:
  "parse_mc3 (PStr h) pfx UDOLLAR rounds_base default_rounds handler =
     (if \<not> prefix pfx h then Inl (InvalidHashError handler)
      else (case split_fields UDOLLAR (drop (length pfx) h) of
              [rounds, salt, chk] \<Rightarrow>
                parse_mc3_rounds rounds salt (Some chk) rounds_base default_rounds handler
            | [rounds, salt] \<Rightarrow> parse_mc3_rounds rounds salt None rounds_base default_rounds handler
            | _ \<Rightarrow> Inl (MalformedHashError handler None)))"
  by (simp add: parse_mc3_def to_unicode_def py_split_def UDOLLAR_def)

lemma parse_mc3_rounds_not_Invalid:
  "parse_mc3_rounds rounds salt chk rounds_base default_rounds handler \<noteq> Inl (InvalidHashError h)"
  using py_int_not_Invalid [of rounds rounds_base h]
  by (auto simp: parse_mc3_rounds_def ZeroPaddedRoundsError_def Invalid_neq_Malformed [symmetric]
      split: sum.splits option.splits)

text \<open>
  Claim C7.  For every text, \<^verbatim>\<open>parse_mc2\<close> and \<^verbatim>\<open>parse_mc3\<close> raise the
  invalid-hash error exactly when the text does not start with the prefix.  When it does,
  and the rest splits on \<^verbatim>\<open>$\<close> into a number of fields other than 1 or 2
  (\<^verbatim>\<open>parse_mc2\<close>), other than 2 or 3 (\<^verbatim>\<open>parse_mc3\<close>), they raise the
  malformed-hash error; the number of fields is one more than the number of separators.
  Both errors are \<^verbatim>\<open>ValueError\<close>s; they differ by their messages, whatever the
  handler named in them.
\<close>

theorem parse_errors_distinct:
  "(parse_mc2 (PStr h) pfx UDOLLAR handler = Inl (InvalidHashError handler) \<longleftrightarrow> \<not> prefix pfx h)
   \<and> (parse_mc3 (PStr h) pfx UDOLLAR rounds_base default_rounds handler
        = Inl (InvalidHashError handler) \<longleftrightarrow> \<not> prefix pfx h)
   \<and> (prefix pfx h \<and> length (split_fields UDOLLAR (drop (length pfx) h)) \<noteq> 1
        \<and> length (split_fields UDOLLAR (drop (length pfx) h)) \<noteq> 2
      \<longrightarrow> parse_mc2 (PStr h) pfx UDOLLAR handler = Inl (MalformedHashError handler None))
   \<and> (prefix pfx h \<and> length (split_fields UDOLLAR (drop (length pfx) h)) \<noteq> 2
        \<and> length (split_fields UDOLLAR (drop (length pfx) h)) \<noteq> 3
      \<longrightarrow> parse_mc3 (PStr h) pfx UDOLLAR rounds_base default_rounds handler
            = Inl (MalformedHashError handler None))
   \<and> length (split_fields UDOLLAR (drop (length pfx) h))
        = Suc (count_list (drop (length pfx) h) (CHR ''$''))
   \<and> InvalidHashError handler \<noteq> MalformedHashError handler' reason"
proof -
  let ?parts = "split_fields UDOLLAR (drop (length pfx) h)"
  have a: "parse_mc2 (PStr h) pfx UDOLLAR handler = Inl (InvalidHashError handler)
             \<longleftrightarrow> \<not> prefix pfx h"
    by (auto simp: parse_mc2_text Invalid_neq_Malformed [symmetric] split: list.splits)
  have b: "parse_mc3 (PStr h) pfx UDOLLAR rounds_base default_rounds handler
             = Inl (InvalidHashError handler) \<longleftrightarrow> \<not> prefix pfx h"
    by (auto simp: parse_mc3_text Invalid_neq_Malformed [symmetric] parse_mc3_rounds_not_Invalid
        split: list.splits)
  have c: "prefix pfx h \<and> length ?parts \<noteq> 1 \<and> length ?parts \<noteq> 2
      \<longrightarrow> parse_mc2 (PStr h) pfx UDOLLAR handler = Inl (MalformedHashError handler None)"
    by (auto simp: parse_mc2_text split: list.splits)
  have d: "prefix pfx h \<and> length ?parts \<noteq> 2 \<and> length ?parts \<noteq> 3
      \<longrightarrow> parse_mc3 (PStr h) pfx UDOLLAR rounds_base default_rounds handler
            = Inl (MalformedHashError handler None)"
    by (auto simp: parse_mc3_text split: list.splits)
  have e: "length ?parts = Suc (count_list (drop (length pfx) h) (CHR ''$''))"
    by (simp add: UDOLLAR_def length_split_fields)
  show ?thesis
    using a b c d e Invalid_neq_Malformed by blast
qed

theorem parse_errors_distinct_witness:
  "parse_mc2 (PStr ''$2$abc$xyz'') ''$1$'' UDOLLAR (Some ''md5_crypt'')
     = Inl (ValueError ''not a valid md5_crypt hash'')
   \<and> parse_mc2 (PStr ''$1$a$b$c'') ''$1$'' UDOLLAR (Some ''md5_crypt'')
     = Inl (ValueError ''malformed md5_crypt hash'')
   \<and> parse_mc3 (PStr ''$1$abc'') ''$1$'' UDOLLAR 10 None (Some ''md5_crypt'')
     = Inl (ValueError ''malformed md5_crypt hash'')"
  using parse_errors_distinct [of "''$2$abc$xyz''" "''$1$''" "Some ''md5_crypt''" 10 None]
        parse_errors_distinct [of "''$1$a$b$c''" "''$1$''" "Some ''md5_crypt''" 10 None]
        parse_errors_distinct [of "''$1$abc''" "''$1$''" "Some ''md5_crypt''" 10 None]
  by (simp add: UDOLLAR_def InvalidHashError_def MalformedHashError_def get_name_def)

subsection \<open>Integers written and read back\<close>

lemma digit_value_digit_char: "d < 16 \<Longrightarrow> digit_value (digit_char d) = d"
  using lt16_cases [of d] by (auto simp: digit_char_def digit_value_def)

lemma digit_char_plain:
  "d < 16 \<Longrightarrow> digit_char d \<notin> set ''_+-xX$'' \<and> \<not> py_isspace (digit_char d)"
  using lt16_cases [of d] by (auto simp: digit_char_def py_isspace_def)

lemma digit_char_zero: "d < 16 \<Longrightarrow> digit_char d = CHR ''0'' \<longleftrightarrow> d = 0"
  using lt16_cases [of d] by (auto simp: digit_char_def)

lemma nat_digits_not_Nil: "nat_digits b n \<noteq> []"
  by (subst nat_digits.simps) simp

lemma nat_digits_chars:
  "2 \<le> b \<Longrightarrow> list_all (is_digit_below b) (nat_digits b n)"
proof (induction b n rule: nat_digits.induct)
  case (1 b n)
  show ?case
  proof (cases "n < b")
    case True
    then show ?thesis
      using "1.prems" by (subst nat_digits.simps) (auto simp: is_digit_below_def)
  next
    case False
    have "n mod b < b" using "1.prems" by simp
    then have "is_digit_below b (digit_char (n mod b))"
      by (auto simp: is_digit_below_def)
    then show ?thesis
      using False "1.prems" "1.IH"
      by (subst nat_digits.simps) simp
  qed
qed

lemma nat_digits_value:
  "2 \<le> b \<Longrightarrow> b \<le> 16 \<Longrightarrow> digits_value b 0 (nat_digits b n) = int n"
proof (induction b n rule: nat_digits.induct)
  case (1 b n)
  show ?case
  proof (cases "n < b")
    case True
    then have "n < 16" using "1.prems" by simp
    then show ?thesis
      using True by (subst nat_digits.simps) (simp add: digits_value_def digit_value_digit_char)
  next
    case False
    have "n mod b < b" using "1.prems" by simp
    then have m: "n mod b < 16" using "1.prems" by linarith
    have "digits_value b 0 (nat_digits b (n div b)) = int (n div b)"
      using False "1.prems" "1.IH" by simp
    then have "digits_value b 0 (nat_digits b n) = int (n div b) * int b + int (n mod b)"
      using False "1.prems" m
      by (subst nat_digits.simps) (simp add: digits_value_def digit_value_digit_char)
    also have "\<dots> = int n"
    proof -
      have "int n = int (n div b * b + n mod b)"
        by simp
      also have "\<dots> = int (n div b) * int b + int (n mod b)"
        by (simp only: of_nat_add of_nat_mult)
      finally show ?thesis by simp
    qed
    finally show ?thesis .
  qed
qed

lemma scan_digits_all:
  assumes "list_all (is_digit_below b) ds" and "ds \<noteq> []" and "b \<le> 16"
  shows "scan_digits b acc us seen ds = Some (digits_value b acc ds, True, [])"
  using assms(1,2)
proof (induction ds arbitrary: acc us seen)
  case Nil
  then show ?case by simp
next
  case (Cons c ds)
  from Cons.prems obtain d where d: "d < b" "c = digit_char d"
    by (auto simp: is_digit_below_def)
  then have d16: "d < 16" using assms(3) by simp
  have nu: "c \<noteq> CHR ''_''"
    using digit_char_plain [OF d16] d by auto
  have dv: "digit_value c < b"
    using d d16 by (simp add: digit_value_digit_char)
  show ?case
  proof (cases ds)
    case Nil
    then show ?thesis
      using nu dv by (simp add: digits_value_def)
  next
    case (Cons c' ds')
    then have "scan_digits b (acc * int b + int (digit_value c)) False True ds
                 = Some (digits_value b (acc * int b + int (digit_value c)) ds, True, [])"
      using Cons.IH Cons.prems by simp
    then show ?thesis
      using nu dv by (simp add: digits_value_def)
  qed
qed

lemma digit_below_plain:
  assumes "is_digit_below b c" and "b \<le> 16"
  shows "c \<noteq> CHR ''_''" and "c \<noteq> CHR ''+''" and "c \<noteq> CHR ''-''" and "c \<noteq> CHR ''x''"
    and "c \<noteq> CHR ''X''" and "c \<noteq> CHR ''$''" and "\<not> py_isspace c"
proof -
  from assms(1) obtain d where d: "d < b" "c = digit_char d"
    unfolding is_digit_below_def by blast
  have d16: "d < 16" using d(1) assms(2) by simp
  show "c \<noteq> CHR ''_''" and "c \<noteq> CHR ''+''" and "c \<noteq> CHR ''-''" and "c \<noteq> CHR ''x''"
    and "c \<noteq> CHR ''X''" and "c \<noteq> CHR ''$''" and "\<not> py_isspace c"
    using digit_char_plain [OF d16] by (simp_all add: d(2))
qed

lemma py_int_digits:
  assumes "list_all (is_digit_below b) ds" and "ds \<noteq> []" and "b = 10 \<or> b = 16"
  shows "py_int ds (int b) = Inr (digits_value b 0 ds)"
    and "py_int (CHR ''-'' # ds) (int b) = Inr (- digits_value b 0 ds)"
proof -
  have b16: "b \<le> 16" using assms(3) by auto
  from assms(2) obtain c cs where ds: "ds = c # cs"
    by (cases ds) simp_all
  have cd: "is_digit_below b c"
    using assms(1) by (simp add: ds)
  note c = digit_below_plain [OF cd b16]
  have hp: "\<not> has_base_prefix (int b) ds"
  proof (cases cs)
    case Nil
    then show ?thesis by (simp add: ds has_base_prefix_def)
  next
    case (Cons c' cs')
    then have "is_digit_below b c'"
      using assms(1) by (simp add: ds)
    note c' = digit_below_plain [OF this b16]
    show ?thesis
      using assms(3) c'(4,5) by (auto simp: ds Cons has_base_prefix_def)
  qed
  have sc: "scan_digits b 0 False False ds = Some (digits_value b 0 ds, True, [])"
    using assms(1,2) b16 by (rule scan_digits_all)
  have base: "\<not> ((int b \<noteq> 0 \<and> int b < 2) \<or> int b > 36)" "int b \<noteq> 0"
    using assms(3) by auto
  have sg: "int_sign ds = (False, ds)" "int_sign (CHR ''-'' # ds) = (True, ds)"
    using c(2,3) by (simp_all add: int_sign_def ds)
  have ib: "int_base (int b) ds = (int b, False)"
    using base(2) by (simp add: int_base_def)
  have sk: "int_skip_prefix (int b) ds = ds"
    using hp by (simp add: int_skip_prefix_def)
  have lit: "int_literal b False ds = Inr (digits_value b 0 ds)"
    using c(1) sc unfolding ds by (simp add: int_literal_def del: scan_digits.simps)
  have sp: "dropWhile py_isspace ds = ds"
    using c(7) by (simp add: ds)
  have ns: "\<not> py_isspace (CHR ''-'')"
    by (simp add: py_isspace_def)
  show "py_int ds (int b) = Inr (digits_value b 0 ds)"
    using base(1) by (simp add: py_int_def sp sg ib sk lit)
  show "py_int (CHR ''-'' # ds) (int b) = Inr (- digits_value b 0 ds)"
    using base(1) by (simp add: py_int_def ns sg ib sk lit)
qed

lemma py_int_int_digits:
  assumes "b = 10 \<or> b = 16"
  shows "py_int (int_digits b n) (int b) = Inr n"
proof -
  have b: "2 \<le> b" "b \<le> 16" using assms by auto
  show ?thesis
  proof (cases "n < 0")
    case True
    have "py_int (CHR ''-'' # nat_digits b (nat (- n))) (int b)
            = Inr (- digits_value b 0 (nat_digits b (nat (- n))))"
      using nat_digits_chars [OF b(1)] nat_digits_not_Nil assms by (rule py_int_digits(2))
    then show ?thesis
      using True by (simp add: int_digits_def nat_digits_value [OF b])
  next
    case False
    have "py_int (nat_digits b (nat n)) (int b) = Inr (digits_value b 0 (nat_digits b (nat n)))"
      using nat_digits_chars [OF b(1)] nat_digits_not_Nil assms by (rule py_int_digits(1))
    then show ?thesis
      using False by (simp add: int_digits_def nat_digits_value [OF b])
  qed
qed

lemma nat_digits_leading_zero:
  assumes "2 \<le> b" and "b \<le> 16" and "hd (nat_digits b n) = CHR ''0''"
  shows "nat_digits b n = ''0''"
  using assms
proof (induction b n rule: nat_digits.induct)
  case (1 b n)
  show ?case
  proof (cases "n < b")
    case True
    then have "nat_digits b n = [digit_char n]"
      by (subst nat_digits.simps) simp
    moreover have "n < 16" using True "1.prems" by simp
    ultimately show ?thesis
      using "1.prems"(3) by (simp add: digit_char_zero)
  next
    case False
    have unf: "nat_digits b n = nat_digits b (n div b) @ [digit_char (n mod b)]"
      using False "1.prems" by (subst nat_digits.simps) simp
    have "hd (nat_digits b (n div b)) = CHR ''0''"
      using "1.prems"(3) nat_digits_not_Nil [of b "n div b"] by (simp add: unf)
    then have "nat_digits b (n div b) = ''0''"
      using False "1.prems" "1.IH" by simp
    then have "digits_value b 0 ''0'' = int (n div b)"
      using nat_digits_value [of b "n div b"] "1.prems" by simp
    then have "n div b = 0"
      by (simp add: digits_value_def digit_value_def)
    then have "n < b"
      using "1.prems" by (simp add: div_eq_0_iff)
    then show ?thesis using False by simp
  qed
qed

lemma int_digits_no_padding:
  assumes "2 \<le> b" and "b \<le> 16"
  shows "\<not> (prefix UZERO (int_digits b n) \<and> int_digits b n \<noteq> UZERO)"
proof (cases "n < 0")
  case True
  then show ?thesis by (simp add: int_digits_def UZERO_def)
next
  case False
  obtain c cs where cs: "nat_digits b (nat n) = c # cs"
    using nat_digits_not_Nil [of b "nat n"] by (cases "nat_digits b (nat n)") auto
  show ?thesis
    using False nat_digits_leading_zero [OF assms, of "nat n"]
    by (auto simp: int_digits_def UZERO_def cs)
qed

lemma int_digits_no_sep:
  assumes "2 \<le> b" and "b \<le> 16"
  shows "CHR ''$'' \<notin> set (int_digits b n)" and "int_digits b n \<noteq> []"
proof -
  have "CHR ''$'' \<notin> set (nat_digits b k)" for k
  proof
    assume "CHR ''$'' \<in> set (nat_digits b k)"
    then have "is_digit_below b (CHR ''$'')"
      using nat_digits_chars [OF assms(1), of k] by (simp add: list_all_iff)
    then show False
      using digit_below_plain(6) [OF _ assms(2)] by blast
  qed
  then show "CHR ''$'' \<notin> set (int_digits b n)"
    by (simp add: int_digits_def)
  show "int_digits b n \<noteq> []"
    by (simp add: int_digits_def nat_digits_not_Nil)
qed

lemma parse_mc3_rounds_int_digits:
  assumes "b = 10 \<or> b = 16"
  shows "parse_mc3_rounds (int_digits b n) salt chk (int b) default_rounds handler
           = Inr (n, salt, or_None chk)"
proof -
  have b: "2 \<le> b" "b \<le> 16" using assms by auto
  show ?thesis
    using int_digits_no_padding [OF b, of n] int_digits_no_sep(2) [OF b, of n]
      py_int_int_digits [OF assms, of n]
    by (simp add: parse_mc3_rounds_def)
qed

subsection \<open>Parsing what was rendered\<close>

lemma dollar: "UDOLLAR = [CHR ''$'']"
  by (simp add: UDOLLAR_def)

lemma parse_mc2_one:
  assumes "CHR ''$'' \<notin> set salt"
  shows "parse_mc2 (PStr (pfx @ salt)) pfx UDOLLAR handler = Inr (salt, None)"
  unfolding parse_mc2_text using assms by (simp add: dollar split_fields_no_sep)

lemma parse_mc2_two:
  assumes "CHR ''$'' \<notin> set salt" and "CHR ''$'' \<notin> set chk"
  shows "parse_mc2 (PStr (pfx @ salt @ UDOLLAR @ chk)) pfx UDOLLAR handler
           = Inr (salt, or_None (Some chk))"
  unfolding parse_mc2_text using assms
  by (simp add: dollar split_fields_sep split_fields_no_sep)

lemma parse_mc3_two:
  assumes "CHR ''$'' \<notin> set rounds" and "CHR ''$'' \<notin> set salt"
  shows "parse_mc3 (PStr (pfx @ rounds @ UDOLLAR @ salt)) pfx UDOLLAR rounds_base default_rounds
           handler
           = parse_mc3_rounds rounds salt None rounds_base default_rounds handler"
  unfolding parse_mc3_text using assms
  by (simp add: dollar split_fields_sep split_fields_no_sep)

lemma parse_mc3_three:
  assumes "CHR ''$'' \<notin> set rounds" and "CHR ''$'' \<notin> set salt" and "CHR ''$'' \<notin> set chk"
  shows "parse_mc3 (PStr (pfx @ rounds @ UDOLLAR @ salt @ UDOLLAR @ chk)) pfx UDOLLAR rounds_base
           default_rounds handler
           = parse_mc3_rounds rounds salt (Some chk) rounds_base default_rounds handler"
  unfolding parse_mc3_text using assms
  by (simp add: dollar split_fields_sep split_fields_no_sep)

lemma s5000: "py_str 5000 = ''5000''"
  by (simp add: py_str_def int_digits_def nat_digits.simps digit_char_def)

lemma h5000: "py_hex 5000 = ''1388''"
  by (simp add: py_hex_def int_digits_def nat_digits.simps digit_char_def)

text \<open>
  Claim C10.  An empty checksum field counts as no checksum: for a salt without
  \<^verbatim>\<open>$\<close>, the hash with a trailing separator parses like the configuration string,
  to the salt and \<^verbatim>\<open>None\<close>, and rendering it gives the string without the trailing
  separator.  The same holds for \<^verbatim>\<open>parse_mc3\<close> with a rounds field: both strings
  give the same result, which, when it is not an error, has the salt and \<^verbatim>\<open>None\<close>,
  and renders without the trailing separator.
\<close>

theorem empty_checksum_is_config:
  assumes "CHR ''$'' \<notin> set s"
  shows "parse_mc2 (PStr (p @ s @ UDOLLAR)) p UDOLLAR handler = Inr (s, None)
       \<and> parse_mc2 (PStr (p @ s)) p UDOLLAR handler = Inr (s, None)
       \<and> render_mc2 p s None UDOLLAR = p @ s
       \<and> (CHR ''$'' \<notin> set r \<longrightarrow>
            parse_mc3 (PStr (p @ r @ UDOLLAR @ s @ UDOLLAR)) p UDOLLAR rounds_base default_rounds
              handler
              = parse_mc3 (PStr (p @ r @ UDOLLAR @ s)) p UDOLLAR rounds_base default_rounds handler
          \<and> (\<forall>n sa c. parse_mc3 (PStr (p @ r @ UDOLLAR @ s @ UDOLLAR)) p UDOLLAR rounds_base
                         default_rounds handler = Inr (n, sa, c)
                 \<longrightarrow> sa = s \<and> c = None
                     \<and> render_mc3 p (Some n) sa c UDOLLAR 10
                         = Inr (p @ py_str n @ UDOLLAR @ s)))"
proof -
  have a: "parse_mc2 (PStr (p @ s @ UDOLLAR)) p UDOLLAR handler = Inr (s, None)"
    using parse_mc2_two [OF assms, of "[]" p handler] by simp
  have b: "parse_mc2 (PStr (p @ s)) p UDOLLAR handler = Inr (s, None)"
    using assms by (rule parse_mc2_one)
  have c: "render_mc2 p s None UDOLLAR = p @ s"
    by (simp add: render_mc2_def)
  have d: "CHR ''$'' \<notin> set r \<longrightarrow>
            parse_mc3 (PStr (p @ r @ UDOLLAR @ s @ UDOLLAR)) p UDOLLAR rounds_base default_rounds
              handler
              = parse_mc3 (PStr (p @ r @ UDOLLAR @ s)) p UDOLLAR rounds_base default_rounds handler
          \<and> (\<forall>n sa c. parse_mc3 (PStr (p @ r @ UDOLLAR @ s @ UDOLLAR)) p UDOLLAR rounds_base
                         default_rounds handler = Inr (n, sa, c)
                 \<longrightarrow> sa = s \<and> c = None
                     \<and> render_mc3 p (Some n) sa c UDOLLAR 10
                         = Inr (p @ py_str n @ UDOLLAR @ s))"
  proof
    assume r: "CHR ''$'' \<notin> set r"
    have e3: "parse_mc3 (PStr (p @ r @ UDOLLAR @ s @ UDOLLAR)) p UDOLLAR rounds_base
                default_rounds handler
              = parse_mc3_rounds r s (Some []) rounds_base default_rounds handler"
      using parse_mc3_three [OF r assms, of "[]" p rounds_base default_rounds handler] by simp
    have e2: "parse_mc3 (PStr (p @ r @ UDOLLAR @ s)) p UDOLLAR rounds_base default_rounds handler
              = parse_mc3_rounds r s None rounds_base default_rounds handler"
      using r assms by (rule parse_mc3_two)
    have same: "parse_mc3_rounds r s (Some []) rounds_base default_rounds handler
                = parse_mc3_rounds r s None rounds_base default_rounds handler"
      by (auto simp: parse_mc3_rounds_def UZERO_def split: option.split sum.split)
    have res: "parse_mc3_rounds r s None rounds_base default_rounds handler = Inr (n, sa, c)
                 \<longrightarrow> sa = s \<and> c = None" for n sa c
      by (auto simp: parse_mc3_rounds_def split: if_splits sum.splits option.splits)
    show "parse_mc3 (PStr (p @ r @ UDOLLAR @ s @ UDOLLAR)) p UDOLLAR rounds_base default_rounds
              handler
              = parse_mc3 (PStr (p @ r @ UDOLLAR @ s)) p UDOLLAR rounds_base default_rounds handler
          \<and> (\<forall>n sa c. parse_mc3 (PStr (p @ r @ UDOLLAR @ s @ UDOLLAR)) p UDOLLAR rounds_base
                         default_rounds handler = Inr (n, sa, c)
                 \<longrightarrow> sa = s \<and> c = None
                     \<and> render_mc3 p (Some n) sa c UDOLLAR 10
                         = Inr (p @ py_str n @ UDOLLAR @ s))"
    proof (rule conjI)
      show "parse_mc3 (PStr (p @ r @ UDOLLAR @ s @ UDOLLAR)) p UDOLLAR rounds_base default_rounds
              handler
              = parse_mc3 (PStr (p @ r @ UDOLLAR @ s)) p UDOLLAR rounds_base default_rounds handler"
        by (simp add: e3 e2 same)
    next
      show "\<forall>n sa c. parse_mc3 (PStr (p @ r @ UDOLLAR @ s @ UDOLLAR)) p UDOLLAR rounds_base
                         default_rounds handler = Inr (n, sa, c)
                 \<longrightarrow> sa = s \<and> c = None
                     \<and> render_mc3 p (Some n) sa c UDOLLAR 10
                         = Inr (p @ py_str n @ UDOLLAR @ s)"
      proof (intro allI impI)
        fix n sa c
        assume "parse_mc3 (PStr (p @ r @ UDOLLAR @ s @ UDOLLAR)) p UDOLLAR rounds_base
                  default_rounds handler = Inr (n, sa, c)"
        then have "parse_mc3_rounds r s None rounds_base default_rounds handler = Inr (n, sa, c)"
          by (simp add: e3 same)
        then have sc: "sa = s \<and> c = None"
          using res by blast
        then show "sa = s \<and> c = None
                   \<and> render_mc3 p (Some n) sa c UDOLLAR 10 = Inr (p @ py_str n @ UDOLLAR @ s)"
          by (simp add: render_mc3_def)
      qed
    qed
  qed
  show ?thesis
    using a b c d by blast
qed

theorem empty_checksum_is_config_witness:
  "parse_mc2 (PStr ''$1$abc$'') ''$1$'' UDOLLAR None = Inr (''abc'', None)
   \<and> parse_mc2 (PStr ''$1$abc'') ''$1$'' UDOLLAR None = Inr (''abc'', None)
   \<and> render_mc2 ''$1$'' ''abc'' None UDOLLAR = ''$1$abc''
   \<and> parse_mc3 (PStr ''$5$5000$abc$'') ''$5$'' UDOLLAR 10 None None
       = parse_mc3 (PStr ''$5$5000$abc'') ''$5$'' UDOLLAR 10 None None"
proof -
  have h: "CHR ''$'' \<notin> set ''abc''"
    by simp
  have r: "CHR ''$'' \<notin> set ''5000''"
    by simp
  note t1 = empty_checksum_is_config
              [OF h, where p = "''$1$''" and handler = None and r = "''5000''"
                 and rounds_base = 10 and default_rounds = None]
  note t5 = empty_checksum_is_config
              [OF h, where p = "''$5$''" and handler = None and r = "''5000''"
                 and rounds_base = 10 and default_rounds = None]
  note a = t1 [THEN conjunct1]
  note b = t1 [THEN conjunct2, THEN conjunct1]
  note c = t1 [THEN conjunct2, THEN conjunct2, THEN conjunct1]
  note d = t5 [THEN conjunct2, THEN conjunct2, THEN conjunct2, THEN mp, OF r, THEN conjunct1]
  show ?thesis
    using a b c d by (simp add: UDOLLAR_def)
qed

text \<open>
  Claim C6.  On a hash of three fields without \<^verbatim>\<open>$\<close>, \<^verbatim>\<open>parse_mc3\<close> raises
  the zero-padded-rounds error when the rounds field starts with \<^verbatim>\<open>0\<close> and is not
  \<^verbatim>\<open>0\<close> itself; otherwise a rounds field that is not empty is read by
  \<^verbatim>\<open>int\<close> in the given base, and an empty one gives \<^verbatim>\<open>default_rounds\<close>, or
  the malformed-hash error when there is none.  \<^verbatim>\<open>int\<close> reads back what
  \<^verbatim>\<open>str\<close> writes in base 10 and \<^verbatim>\<open>%x\<close> in base 16.  The two examples of the
  specification are the last two parts.
\<close>

theorem parse_mc3_rounds_field:
  assumes "CHR ''$'' \<notin> set rounds" and "CHR ''$'' \<notin> set salt" and "CHR ''$'' \<notin> set chk"
  shows "parse_mc3 (PStr (pfx @ rounds @ UDOLLAR @ salt @ UDOLLAR @ chk)) pfx UDOLLAR rounds_base
           default_rounds handler
         = (if prefix ''0'' rounds \<and> rounds \<noteq> ''0''
            then Inl (ValueError (''malformed '' @ get_name handler
                                  @ '' hash (zero-padded rounds)''))
            else if rounds \<noteq> []
            then (case py_int rounds rounds_base of
                    Inl e \<Rightarrow> Inl e
                  | Inr n \<Rightarrow> Inr (n, salt, or_None (Some chk)))
            else (case default_rounds of
                    None \<Rightarrow> Inl (ValueError (''malformed '' @ get_name handler
                                              @ '' hash (empty rounds field)''))
                  | Some d \<Rightarrow> Inr (d, salt, or_None (Some chk))))
       \<and> py_int (py_str n) 10 = Inr n
       \<and> py_int (py_hex n) 16 = Inr n
       \<and> parse_mc3 (PStr ''$1$0012$abc$xyz'') ''$1$'' UDOLLAR 10 None None
           = Inl (ValueError ''malformed <unnamed> hash (zero-padded rounds)'')
       \<and> parse_mc3 (PStr ''$1$12$abc$xyz'') ''$1$'' UDOLLAR 10 None None
           = Inr (12, ''abc'', Some ''xyz'')"
proof -
  have a: "parse_mc3 (PStr (pfx @ rounds @ UDOLLAR @ salt @ UDOLLAR @ chk)) pfx UDOLLAR rounds_base
           default_rounds handler
         = (if prefix ''0'' rounds \<and> rounds \<noteq> ''0''
            then Inl (ValueError (''malformed '' @ get_name handler
                                  @ '' hash (zero-padded rounds)''))
            else if rounds \<noteq> []
            then (case py_int rounds rounds_base of
                    Inl e \<Rightarrow> Inl e
                  | Inr n \<Rightarrow> Inr (n, salt, or_None (Some chk)))
            else (case default_rounds of
                    None \<Rightarrow> Inl (ValueError (''malformed '' @ get_name handler
                                              @ '' hash (empty rounds field)''))
                  | Some d \<Rightarrow> Inr (d, salt, or_None (Some chk))))"
    unfolding parse_mc3_three [OF assms]
    by (simp add: parse_mc3_rounds_def UZERO_def ZeroPaddedRoundsError_def MalformedHashError_def
        Let_def split: option.split sum.split)
  have b: "py_int (py_str n) 10 = Inr n"
    using py_int_int_digits [of 10 n] by (simp add: py_str_def)
  have c: "py_int (py_hex n) 16 = Inr n"
    using py_int_int_digits [of 16 n] by (simp add: py_hex_def)
  have d: "parse_mc3 (PStr ''$1$0012$abc$xyz'') ''$1$'' UDOLLAR 10 None None
           = Inl (ValueError ''malformed <unnamed> hash (zero-padded rounds)'')"
    unfolding parse_mc3_text
    by (simp add: dollar parse_mc3_rounds_def UZERO_def ZeroPaddedRoundsError_def
        MalformedHashError_def get_name_def)
  have s12: "py_str 12 = ''12''"
    by (simp add: py_str_def int_digits_def nat_digits.simps digit_char_def)
  have e: "parse_mc3 (PStr ''$1$12$abc$xyz'') ''$1$'' UDOLLAR 10 None None
           = Inr (12, ''abc'', Some ''xyz'')"
    unfolding parse_mc3_text
    using py_int_int_digits [of 10 12] s12
    by (simp add: dollar parse_mc3_rounds_def UZERO_def py_str_def)
  show ?thesis
    using a b c d e by simp
qed

theorem parse_mc3_rounds_field_witness:
  "parse_mc3 (PStr ''$1$0012$abc$xyz'') ''$1$'' UDOLLAR 10 None None
     = Inl (ValueError ''malformed <unnamed> hash (zero-padded rounds)'')
   \<and> parse_mc3 (PStr ''$1$$abc$xyz'') ''$1$'' UDOLLAR 10 (Some 5000) None
     = Inr (5000, ''abc'', Some ''xyz'')
   \<and> parse_mc3 (PStr ''$1$$abc$xyz'') ''$1$'' UDOLLAR 10 None (Some ''sha1_crypt'')
     = Inl (ValueError ''malformed sha1_crypt hash (empty rounds field)'')"
  using parse_mc3_rounds_field [of "''0012''" "''abc''" "''xyz''" "''$1$''" 10 None None]
        parse_mc3_rounds_field [of "[]" "''abc''" "''xyz''" "''$1$''" 10 "Some 5000" None]
        parse_mc3_rounds_field [of "[]" "''abc''" "''xyz''" "''$1$''" 10 None "Some ''sha1_crypt''"]
  by (simp add: UDOLLAR_def get_name_def)

text \<open>
  Claim C2.  For a salt without \<^verbatim>\<open>$\<close> and a checksum that is \<^verbatim>\<open>None\<close> or a
  non-empty text without \<^verbatim>\<open>$\<close>: \<^verbatim>\<open>parse_mc2\<close> of what \<^verbatim>\<open>render_mc2\<close>
  renders is the salt and the checksum; for every integer number of rounds, in base 10
  and in base 16, \<^verbatim>\<open>parse_mc3\<close> of what \<^verbatim>\<open>render_mc3\<close> renders is the rounds,
  the salt and the checksum; and rendering the result of parsing a rendered string gives
  that string again.
\<close>

theorem mcf_round_trip:
  assumes "CHR ''$'' \<notin> set salt"
    and "chk = None \<or> (\<exists>c. chk = Some c \<and> c \<noteq> [] \<and> CHR ''$'' \<notin> set c)"
  shows "parse_mc2 (PStr (render_mc2 idt salt chk UDOLLAR)) idt UDOLLAR handler = Inr (salt, chk)
       \<and> render_mc3 idt (Some rounds) salt chk UDOLLAR 10
           = Inr (idt @ py_str rounds @ UDOLLAR @ salt
                  @ (case chk of None \<Rightarrow> [] | Some c \<Rightarrow> UDOLLAR @ c))
       \<and> parse_mc3 (PStr (idt @ py_str rounds @ UDOLLAR @ salt
                  @ (case chk of None \<Rightarrow> [] | Some c \<Rightarrow> UDOLLAR @ c)))
           idt UDOLLAR 10 default_rounds handler = Inr (rounds, salt, chk)
       \<and> render_mc3 idt (Some rounds) salt chk UDOLLAR 16
           = Inr (idt @ py_hex rounds @ UDOLLAR @ salt
                  @ (case chk of None \<Rightarrow> [] | Some c \<Rightarrow> UDOLLAR @ c))
       \<and> parse_mc3 (PStr (idt @ py_hex rounds @ UDOLLAR @ salt
                  @ (case chk of None \<Rightarrow> [] | Some c \<Rightarrow> UDOLLAR @ c)))
           idt UDOLLAR 16 default_rounds handler = Inr (rounds, salt, chk)
       \<and> (case parse_mc2 (PStr (render_mc2 idt salt chk UDOLLAR)) idt UDOLLAR handler of
            Inr (sa, c) \<Rightarrow> render_mc2 idt sa c UDOLLAR = render_mc2 idt salt chk UDOLLAR
          | Inl e \<Rightarrow> False)
       \<and> (case parse_mc3 (PStr (idt @ py_str rounds @ UDOLLAR @ salt
                  @ (case chk of None \<Rightarrow> [] | Some c \<Rightarrow> UDOLLAR @ c)))
                 idt UDOLLAR 10 default_rounds handler of
            Inr (n, sa, c) \<Rightarrow>
              render_mc3 idt (Some n) sa c UDOLLAR 10
                = Inr (idt @ py_str rounds @ UDOLLAR @ salt
                       @ (case chk of None \<Rightarrow> [] | Some c \<Rightarrow> UDOLLAR @ c))
          | Inl e \<Rightarrow> False)"
proof (cases chk)
  case None
  have r10: "CHR ''$'' \<notin> set (py_str rounds)" and r16: "CHR ''$'' \<notin> set (py_hex rounds)"
    using int_digits_no_sep(1) [of 10 rounds] int_digits_no_sep(1) [of 16 rounds]
    by (simp_all add: py_str_def py_hex_def)
  show ?thesis
    using parse_mc2_one [OF assms(1), of idt handler]
      parse_mc3_two [OF r10 assms(1), of idt 10 default_rounds handler]
      parse_mc3_two [OF r16 assms(1), of idt 16 default_rounds handler]
      parse_mc3_rounds_int_digits [of 10 rounds salt None default_rounds handler]
      parse_mc3_rounds_int_digits [of 16 rounds salt None default_rounds handler]
    by (simp add: None render_mc2_def render_mc3_def py_str_def py_hex_def)
next
  case (Some c)
  then have c: "c \<noteq> []" "CHR ''$'' \<notin> set c"
    using assms(2) by auto
  have r10: "CHR ''$'' \<notin> set (py_str rounds)" and r16: "CHR ''$'' \<notin> set (py_hex rounds)"
    using int_digits_no_sep(1) [of 10 rounds] int_digits_no_sep(1) [of 16 rounds]
    by (simp_all add: py_str_def py_hex_def)
  show ?thesis
    using parse_mc2_two [OF assms(1) c(2), of idt handler] c(1)
      parse_mc3_three [OF r10 assms(1) c(2), of idt 10 default_rounds handler]
      parse_mc3_three [OF r16 assms(1) c(2), of idt 16 default_rounds handler]
      parse_mc3_rounds_int_digits [of 10 rounds salt "Some c" default_rounds handler]
      parse_mc3_rounds_int_digits [of 16 rounds salt "Some c" default_rounds handler]
    by (simp add: Some render_mc2_def render_mc3_def py_str_def py_hex_def)
qed

theorem mcf_round_trip_witness:
  "parse_mc2 (PStr ''$1$abc$xyz'') ''$1$'' UDOLLAR None = Inr (''abc'', Some ''xyz'')
   \<and> render_mc2 ''$1$'' ''abc'' (Some ''xyz'') UDOLLAR = ''$1$abc$xyz''
   \<and> render_mc3 ''$5$'' (Some 5000) ''abc'' (Some ''xyz'') UDOLLAR 10 = Inr ''$5$5000$abc$xyz''
   \<and> parse_mc3 (PStr ''$5$5000$abc$xyz'') ''$5$'' UDOLLAR 10 None None
       = Inr (5000, ''abc'', Some ''xyz'')
   \<and> render_mc3 ''$5$'' (Some 5000) ''abc'' (Some ''xyz'') UDOLLAR 16 = Inr ''$5$1388$abc$xyz''
   \<and> parse_mc3 (PStr ''$5$1388$abc$xyz'') ''$5$'' UDOLLAR 16 None None
       = Inr (5000, ''abc'', Some ''xyz'')"
proof -
  have r: "render_mc2 ''$1$'' ''abc'' (Some ''xyz'') UDOLLAR = ''$1$abc$xyz''"
    by (simp add: render_mc2_def UDOLLAR_def)
  show ?thesis
    using mcf_round_trip [where salt = "''abc''" and chk = "Some ''xyz''" and idt = "''$1$''"
                            and handler = None and rounds = 5000 and default_rounds = None,
                          THEN conjunct1]
          mcf_round_trip [where salt = "''abc''" and chk = "Some ''xyz''" and idt = "''$5$''"
                            and handler = None and rounds = 5000 and default_rounds = None,
                          THEN conjunct2]
    by (simp add: render_mc2_def s5000 h5000 UDOLLAR_def)
qed

end
